theory Spec2Isabelle
  imports Complex_Main "HOL-Library.Word"
begin

section \<open>JavaScript numbers\<close>

text \<open>
  A JavaScript number is a finite value, one of the two infinities, or NaN. Finite
  values are kept as exact rationals: the rounding of \<open>/\<close> and \<open>*\<close> to binary64 and the
  sign of zero are not part of this model (the rounding of a store into a
  \<open>Float32Array\<close> is). A missing array element is \<open>undefined\<close> in JavaScript; here it
  reads as \<open>NaN\<close>, which is what \<open>isFinite\<close>, \<open>isNaN\<close> and the typed-array stores make of
  it.
\<close>

datatype jsnum = Num rat | Infinity | NegInfinity | NaN

fun isFinite :: "jsnum \<Rightarrow> bool" where
  "isFinite (Num q) = True"
| "isFinite x = False"

fun isNaN :: "jsnum \<Rightarrow> bool" where
  "isNaN NaN = True"
| "isNaN x = False"

text \<open>\<open>!x\<close> on a number: true exactly for zero and NaN.\<close>

fun js_not :: "jsnum \<Rightarrow> bool" where
  "js_not (Num q) = (q = 0)"
| "js_not NaN = True"
| "js_not x = False"

text \<open>The sign of a number that is not NaN, as \<open>-1\<close>, \<open>0\<close> or \<open>1\<close>.\<close>

fun js_sgn :: "jsnum \<Rightarrow> int" where
  "js_sgn (Num q) = (if q < 0 then - 1 else if q = 0 then 0 else 1)"
| "js_sgn Infinity = 1"
| "js_sgn NegInfinity = - 1"
| "js_sgn NaN = 0"

fun js_sub :: "jsnum \<Rightarrow> jsnum \<Rightarrow> jsnum" where
  "js_sub NaN y = NaN"
| "js_sub x NaN = NaN"
| "js_sub (Num a) (Num b) = Num (a - b)"
| "js_sub (Num a) Infinity = NegInfinity"
| "js_sub (Num a) NegInfinity = Infinity"
| "js_sub Infinity Infinity = NaN"
| "js_sub NegInfinity NegInfinity = NaN"
| "js_sub Infinity y = Infinity"
| "js_sub NegInfinity y = NegInfinity"

fun js_mul :: "jsnum \<Rightarrow> jsnum \<Rightarrow> jsnum" where
  "js_mul NaN y = NaN"
| "js_mul x NaN = NaN"
| "js_mul (Num a) (Num b) = Num (a * b)"
| "js_mul x y =
     (if js_sgn x * js_sgn y = 0 then NaN
      else if js_sgn x * js_sgn y > 0 then Infinity else NegInfinity)"

fun js_div :: "jsnum \<Rightarrow> jsnum \<Rightarrow> jsnum" where
  "js_div NaN y = NaN"
| "js_div x NaN = NaN"
| "js_div (Num a) (Num b) =
     (if b = 0 then (if a = 0 then NaN else if a > 0 then Infinity else NegInfinity)
      else Num (a / b))"
| "js_div (Num a) y = Num 0"
| "js_div x (Num b) =
     (if js_sgn x * (if b < 0 then - 1 else 1) > 0 then Infinity else NegInfinity)"
| "js_div x y = NaN"

text \<open>\<open>x % y\<close>: the remainder of the division truncated towards zero.\<close>

definition trunc :: "rat \<Rightarrow> int" where
  "trunc q = (if q < 0 then \<lceil>q\<rceil> else \<lfloor>q\<rfloor>)"

fun js_rem :: "jsnum \<Rightarrow> jsnum \<Rightarrow> jsnum" where
  "js_rem (Num a) (Num b) = (if b = 0 then NaN else Num (a - b * of_int (trunc (a / b))))"
| "js_rem (Num a) Infinity = Num a"
| "js_rem (Num a) NegInfinity = Num a"
| "js_rem x y = NaN"

text \<open>\<open>Math.min\<close> and \<open>Math.max\<close> of two numbers: NaN if either is.\<close>

fun js_le :: "jsnum \<Rightarrow> jsnum \<Rightarrow> bool" where
  "js_le (Num a) (Num b) = (a \<le> b)"
| "js_le NegInfinity y = True"
| "js_le x Infinity = True"
| "js_le x y = False"

definition Math_min :: "jsnum \<Rightarrow> jsnum \<Rightarrow> jsnum" where
  "Math_min x y = (if isNaN x \<or> isNaN y then NaN else if js_le x y then x else y)"

definition Math_max :: "jsnum \<Rightarrow> jsnum \<Rightarrow> jsnum" where
  "Math_max x y = (if isNaN x \<or> isNaN y then NaN else if js_le x y then y else x)"

text \<open>\<open>Math.round\<close>: the nearest integer, a tie going up.\<close>

fun Math_round :: "jsnum \<Rightarrow> jsnum" where
  "Math_round (Num q) = Num (of_int \<lfloor>q + 1 / 2\<rfloor>)"
| "Math_round x = x"

text \<open>Reading element \<open>k\<close> of an array of numbers in a numeric context.\<close>

definition js_index :: "jsnum list \<Rightarrow> nat \<Rightarrow> jsnum" where
  "js_index xs k = (if k < length xs then xs ! k else NaN)"

abbreviation js_int :: "int \<Rightarrow> jsnum" where
  "js_int k \<equiv> Num (of_int k)"

section \<open>Typed-array stores\<close>

text \<open>
  A store into a \<open>Uint8ClampedArray\<close> maps NaN to 0, clamps to \<open>[0, 255]\<close> and rounds
  to the nearest integer, a tie going to the even neighbour.
\<close>

definition round_half_even :: "rat \<Rightarrow> int" where
  "round_half_even q =
     (let f = \<lfloor>q\<rfloor> in
      if of_int f + 1 / 2 < q then f + 1
      else if q < of_int f + 1 / 2 then f
      else if even f then f else f + 1)"

fun ToUint8Clamp :: "jsnum \<Rightarrow> 8 word" where
  "ToUint8Clamp (Num q) =
     (if q \<le> 0 then 0 else if 255 \<le> q then 255 else of_int (round_half_even q))"
| "ToUint8Clamp Infinity = 255"
| "ToUint8Clamp x = 0"

text \<open>
  A store into a \<open>Float32Array\<close> rounds to the nearest binary32 value, a tie going to
  the even significand. The spacing of the binary32 values around a magnitude \<open>a\<close> is
  \<open>2 powi (e - 23)\<close>, \<open>e\<close> being the exponent of \<open>a\<close>: it is \<open>1 / 2 ^ 23\<close> for \<open>a\<close> in
  \<open>[1, 2)\<close>, and doubles or halves as \<open>a\<close> does, while \<open>e\<close> stays between \<open>-126\<close> (where
  the subnormal numbers start) and \<open>127\<close>. The magnitude is rounded to a multiple of the
  spacing, and a result of \<open>2 ^ 128\<close> or more overflows to an infinity. Zero is kept.
\<close>

fun ulp_up :: "nat \<Rightarrow> rat \<Rightarrow> rat \<Rightarrow> rat" where
  "ulp_up 0 u a = u"
| "ulp_up (Suc n) u a = (if 2 \<le> a then ulp_up n (u * 2) (a / 2) else u)"

fun ulp_down :: "nat \<Rightarrow> rat \<Rightarrow> rat \<Rightarrow> rat" where
  "ulp_down 0 u a = u"
| "ulp_down (Suc n) u a = (if a < 1 then ulp_down n (u / 2) (a * 2) else u)"

definition float32_ulp :: "rat \<Rightarrow> rat" where
  "float32_ulp a =
     (if 1 \<le> a then ulp_up 127 (1 / 8388608) a else ulp_down 126 (1 / 8388608) a)"

fun fround :: "jsnum \<Rightarrow> jsnum" where
  "fround (Num q) =
     (if q = 0 then Num 0
      else
        (let a = \<bar>q\<bar>;
             ulp = float32_ulp a;
             r = of_int (round_half_even (a / ulp)) * ulp
         in if 340282366920938463463374607431768211456 \<le> r
            then (if q < 0 then NegInfinity else Infinity)
            else Num (if q < 0 then - r else r)))"
| "fround x = x"

text \<open>
  \<open>new TypedArray(n)\<close> throws a \<open>RangeError\<close> for a negative length and is filled with
  zeros otherwise (the upper limit on the length is not modelled). A store outside the
  array is ignored, which is what \<open>xs[i := v]\<close> does.
\<close>

datatype error = RangeError | TypeError

definition new_array :: "int \<Rightarrow> 'a \<Rightarrow> error + 'a list" where
  "new_array n z = (if n < 0 then Inl RangeError else Inr (replicate (nat n) z))"

text \<open>\<open>for (let k = k0; k < n; k++) body\<close> over a state \<open>s\<close>.\<close>

function for_loop :: "nat \<Rightarrow> int \<Rightarrow> (nat \<Rightarrow> 's \<Rightarrow> 's) \<Rightarrow> 's \<Rightarrow> 's" where
  "for_loop k n body s = (if int k < n then for_loop (Suc k) n body (body k s) else s)"
  by pat_completeness auto
termination
  by (relation "measure (\<lambda>(k, n, body, s). nat (n - int k))") auto

declare for_loop.simps [simp del]

section \<open>The layer's properties\<close>

record extent =
  min_of :: jsnum
  max_of :: jsnum

record props =
  getPosition :: "jsnum \<Rightarrow> jsnum \<Rightarrow> jsnum list"
  getColor :: "jsnum \<Rightarrow> jsnum \<Rightarrow> jsnum \<Rightarrow> jsnum list"
  getXScale :: "extent \<Rightarrow> jsnum \<Rightarrow> jsnum"
  getYScale :: "extent \<Rightarrow> jsnum \<Rightarrow> jsnum"
  getZScale :: "extent \<Rightarrow> jsnum \<Rightarrow> jsnum"
  uCount :: int
  vCount :: int

section \<open>The layer's state and its attributes\<close>

text \<open>
  \<open>initializeState\<close> registers four attributes with the attribute manager, each with
  the number of components per vertex and the accessors it is computed from.
\<close>

datatype attribute = Indices | Positions | Colors | PickingColors

fun size_of :: "attribute \<Rightarrow> int" where
  "size_of Indices = 1"
| "size_of Positions = 4"
| "size_of Colors = 4"
| "size_of PickingColors = 3"

fun accessor :: "attribute \<Rightarrow> string list" where
  "accessor Indices = []"
| "accessor Positions = [''getPosition'']"
| "accessor Colors = [''getPosition'', ''getColor'']"
| "accessor PickingColors = []"

datatype buffer =
    Uint32Array "32 word list"
  | Float32Array "jsnum list"
  | Uint8ClampedArray "8 word list"

text \<open>
  The calls of the caller's functions are effects; every function below that makes them
  returns them in order, as a list.
\<close>

datatype call =
    Call_getPosition jsnum jsnum
  | Call_getXScale extent
  | Call_getYScale extent
  | Call_getZScale extent
  | Call_xScale jsnum
  | Call_yScale jsnum
  | Call_zScale jsnum
  | Call_onUpdate
  | Call_getColor jsnum jsnum jsnum

text \<open>
  The state: \<open>vertexCount\<close>, the value and the dirty flag of each attribute in the
  attribute manager, the vertex count given to the model, and the calls made so far.
\<close>

record state =
  vertexCount :: int
  needsUpdate :: "attribute \<Rightarrow> bool"
  attributes :: "attribute \<Rightarrow> buffer option"
  model_vertexCount :: int
  trace :: "call list"

text \<open>\<open>attribute.value = value\<close>, the last step of every update function.\<close>

definition set_value :: "attribute \<Rightarrow> buffer \<Rightarrow> ('b state_scheme) \<Rightarrow> ('b state_scheme)" where
  "set_value a b st = st\<lparr>attributes := (attributes st)(a := Some b)\<rparr>"

section \<open>Picking colours\<close>

definition encodePickingColor :: "('a props_scheme) \<Rightarrow> nat \<Rightarrow> jsnum list" where
  "encodePickingColor P i =
     (let xIndex = js_rem (Num (of_nat i)) (js_int (uCount P));
          yIndex = js_div (js_sub (Num (of_nat i)) xIndex) (js_int (uCount P))
      in [js_mul (js_div xIndex (js_int (uCount P - 1))) (Num 255),
          js_mul (js_div yIndex (js_int (vCount P - 1))) (Num 255),
          Num 1])"

definition decodePickingColor :: "jsnum list \<Rightarrow> jsnum + jsnum list" where
  "decodePickingColor c =
     (let r = js_index c 0; g = js_index c 1; b = js_index c 2
      in if b = Num 0 then Inl (Num (- 1))
         else Inr [js_div r (Num 255), js_div g (Num 255)])"

text \<open>
  Storing the colours: each component is converted by the \<open>Uint8ClampedArray\<close>.
  \<open>byte_value\<close> reads an element of such an array back as a number.
\<close>

definition byte_value :: "8 word \<Rightarrow> jsnum" where
  "byte_value w = Num (of_nat (unat w))"

definition store_pickingColor :: "('a props_scheme) \<Rightarrow> nat \<Rightarrow> 8 word list \<Rightarrow> 8 word list" where
  "store_pickingColor P i value =
     (let pickingColor = encodePickingColor P i
      in value[i * 3 := ToUint8Clamp (js_index pickingColor 0),
               i * 3 + 1 := ToUint8Clamp (js_index pickingColor 1),
               i * 3 + 2 := ToUint8Clamp (js_index pickingColor 2)])"

definition calculatePickingColors ::
  "('a props_scheme) \<Rightarrow> ('b state_scheme) \<Rightarrow> error + 8 word list" where
  "calculatePickingColors P st =
     (case new_array (vertexCount st * size_of PickingColors) 0 of
        Inl e \<Rightarrow> Inl e
      | Inr value \<Rightarrow> Inr (for_loop 0 (vertexCount st) (store_pickingColor P) value))"

section \<open>Indices\<close>

text \<open>
  One pass of the inner loop body: the six stores of a quad into the \<open>Uint32Array\<close>
  (a store keeps the integer modulo \<open>2 ^ 32\<close>), and the running index \<open>i\<close>.
\<close>

definition store_quad :: "('a props_scheme) \<Rightarrow> nat \<Rightarrow> nat \<Rightarrow> nat \<times> 32 word list \<Rightarrow> nat \<times> 32 word list" where
  "store_quad P xIndex yIndex = (\<lambda>(i, indices).
     (let i0 = int yIndex * uCount P + int xIndex;
          i1 = i0 + 1;
          i2 = i0 + uCount P;
          i3 = i2 + 1
      in (i + 6,
          indices[i := of_int i0, i + 1 := of_int i2, i + 2 := of_int i1,
                  i + 3 := of_int i1, i + 4 := of_int i2, i + 5 := of_int i3])))"

text \<open>The result is the attribute's value and the count given to \<open>setVertexCount\<close>.\<close>

definition calculateIndices :: "('a props_scheme) \<Rightarrow> error + 32 word list \<times> int" where
  "calculateIndices P =
     (let indicesCount = (uCount P - 1) * (vCount P - 1) * 2 * 3
      in case new_array indicesCount 0 of
           Inl e \<Rightarrow> Inl e
         | Inr indices \<Rightarrow>
             Inr (snd (for_loop 0 (uCount P - 1)
                        (\<lambda>xIndex. for_loop 0 (vCount P - 1) (store_quad P xIndex))
                        (0, indices)),
                  indicesCount))"

section \<open>Positions\<close>

text \<open>The variables of the first pass.\<close>

record sampler =
  idx :: nat
  val :: "jsnum list"
  xMin :: jsnum
  xMax :: jsnum
  yMin :: jsnum
  yMax :: jsnum
  zMin :: jsnum
  zMax :: jsnum
  calls :: "call list"

definition sample_vertex :: "('a props_scheme) \<Rightarrow> nat \<Rightarrow> nat \<Rightarrow> sampler \<Rightarrow> sampler" where
  "sample_vertex P vIndex uIndex s =
     (let u = js_div (Num (of_nat uIndex)) (js_int (uCount P - 1));
          v = js_div (Num (of_nat vIndex)) (js_int (vCount P - 1));
          p = getPosition P u v;
          x = js_index p 0;
          y = js_index p 1;
          z = js_index p 2;
          isXFinite = isFinite x;
          isYFinite = isFinite y;
          isZFinite = isFinite z;
          x = (if \<not> isXFinite then Num 0 else x);
          y = (if \<not> isYFinite then Num 0 else y);
          z = (if \<not> isZFinite then Num 0 else z);
          i = idx s
      in s\<lparr>idx := i + 4,
           val := (val s)[i := fround x, i + 1 := fround z, i + 2 := fround y,
                          i + 3 := fround (if isXFinite \<and> isYFinite \<and> isZFinite
                                           then Num 0 else Num 1)],
           xMin := Math_min (xMin s) x,
           xMax := Math_max (xMax s) x,
           yMin := Math_min (yMin s) y,
           yMax := Math_max (yMax s) y,
           zMin := Math_min (zMin s) z,
           zMax := Math_max (zMax s) z,
           calls := calls s @ [Call_getPosition u v]\<rparr>)"

text \<open>The body of the second pass, for vertex \<open>j\<close>.\<close>

definition rescale_vertex ::
  "(jsnum \<Rightarrow> jsnum) \<Rightarrow> (jsnum \<Rightarrow> jsnum) \<Rightarrow> (jsnum \<Rightarrow> jsnum) \<Rightarrow> nat \<Rightarrow>
   jsnum list \<times> call list \<Rightarrow> jsnum list \<times> call list" where
  "rescale_vertex xScale yScale zScale j = (\<lambda>(value, cs).
     (let startIndex = j * 4
      in if js_not (js_index value (startIndex + 3)) then
           (let a = js_index value startIndex;
                value = value[startIndex := fround (xScale a)];
                b = js_index value (startIndex + 1);
                value = value[startIndex + 1 := fround (zScale b)];
                c = js_index value (startIndex + 2);
                value = value[startIndex + 2 := fround (yScale c)]
            in (value, cs @ [Call_xScale a, Call_zScale b, Call_yScale c]))
         else (value, cs)))"

record positions_update =
  positions_value :: "jsnum list"
  onUpdate_arg :: "(jsnum \<Rightarrow> jsnum) \<times> (jsnum \<Rightarrow> jsnum) \<times> (jsnum \<Rightarrow> jsnum)"
  positions_calls :: "call list"

text \<open>The state of the first pass when it ends.\<close>

definition sample_pass :: "('a props_scheme) \<Rightarrow> jsnum list \<Rightarrow> sampler" where
  "sample_pass P value =
     for_loop 0 (vCount P) (\<lambda>vIndex. for_loop 0 (uCount P) (sample_vertex P vIndex))
       \<lparr>idx = 0, val = value,
        xMin = Infinity, xMax = NegInfinity,
        yMin = Infinity, yMax = NegInfinity,
        zMin = Infinity, zMax = NegInfinity,
        calls = []\<rparr>"

definition calculatePositions ::
  "('a props_scheme) \<Rightarrow> ('b state_scheme) \<Rightarrow> error + positions_update" where
  "calculatePositions P st =
     (case new_array (vertexCount st * size_of Positions) (Num 0) of
        Inl e \<Rightarrow> Inl e
      | Inr value \<Rightarrow>
          (let s = sample_pass P value;
               xScale = getXScale P \<lparr>min_of = xMin s, max_of = xMax s\<rparr>;
               yScale = getYScale P \<lparr>min_of = yMin s, max_of = yMax s\<rparr>;
               zScale = getZScale P \<lparr>min_of = zMin s, max_of = zMax s\<rparr>;
               cs = calls s @
                 [Call_getXScale \<lparr>min_of = xMin s, max_of = xMax s\<rparr>,
                  Call_getYScale \<lparr>min_of = yMin s, max_of = yMax s\<rparr>,
                  Call_getZScale \<lparr>min_of = zMin s, max_of = zMax s\<rparr>];
               (value, cs) = for_loop 0 (vertexCount st) (rescale_vertex xScale yScale zScale)
                               (val s, cs)
           in Inr \<lparr>positions_value = value,
                   onUpdate_arg = (xScale, yScale, zScale),
                   positions_calls = cs @ [Call_onUpdate]\<rparr>))"

section \<open>Colours\<close>

definition store_color ::
  "('a props_scheme) \<Rightarrow> jsnum list \<Rightarrow> nat \<Rightarrow> 8 word list \<times> call list \<Rightarrow> 8 word list \<times> call list" where
  "store_color P positions i = (\<lambda>(value, cs).
     (let index = i * 4;
          x = js_index positions index;
          y = js_index positions (index + 2);
          z = js_index positions (index + 1);
          color = getColor P x y z
      in (value[i * 4 := ToUint8Clamp (js_index color 0),
                i * 4 + 1 := ToUint8Clamp (js_index color 1),
                i * 4 + 2 := ToUint8Clamp (js_index color 2),
                i * 4 + 3 := ToUint8Clamp (if isNaN (js_index color 3) then Num 255
                                           else js_index color 3)],
          cs @ [Call_getColor x y z])))"

text \<open>
  The positions are read from the attribute manager. When that attribute has no value,
  the first read of an element throws.
\<close>

definition calculateColors ::
  "('a props_scheme) \<Rightarrow> ('b state_scheme) \<Rightarrow> error + 8 word list \<times> call list" where
  "calculateColors P st =
     (case new_array (vertexCount st * size_of Colors) 0 of
        Inl e \<Rightarrow> Inl e
      | Inr value \<Rightarrow>
          (case attributes st Positions of
             Some (Float32Array positions) \<Rightarrow>
               Inr (for_loop 0 (vertexCount st) (store_color P positions) (value, []))
           | _ \<Rightarrow> if 0 < vertexCount st then Inl TypeError else Inr (value, [])))"

text \<open>
  The positions computed and set as the value of their attribute, then the colours
  computed from them.
\<close>

definition positions_then_colors ::
  "('a props_scheme) \<Rightarrow> ('b state_scheme) \<Rightarrow> error + 8 word list \<times> call list" where
  "positions_then_colors P st =
     (case calculatePositions P st of
        Inl e \<Rightarrow> Inl e
      | Inr r \<Rightarrow> calculateColors P (set_value Positions (Float32Array (positions_value r)) st))"

section \<open>Updates\<close>

record changeFlags =
  propsChanged :: bool

text \<open>
  Modelled from the spec: the attribute manager, whose code is not in this file. Of it
  the layer uses \<open>invalidateAll\<close>, which marks every attribute dirty.
\<close>

definition invalidateAll :: "('b state_scheme) \<Rightarrow> ('b state_scheme)" where
  "invalidateAll st = st\<lparr>needsUpdate := (\<lambda>a. True)\<rparr>"

definition updateState ::
  "('a props_scheme) \<Rightarrow> ('a props_scheme) \<Rightarrow> changeFlags \<Rightarrow> ('b state_scheme) \<Rightarrow> ('b state_scheme)" where
  "updateState oldProps props cf st =
     (if propsChanged cf then
        (if uCount oldProps \<noteq> uCount props \<or> vCount oldProps \<noteq> vCount props
         then invalidateAll (st\<lparr>vertexCount := uCount props * vCount props\<rparr>)
         else st)
      else st)"

text \<open>
  Modelled from the spec: a changed accessor marks dirty the attributes that declare it
  (section 4.5: "mark dirty only the attributes whose declared dependency set intersects
  the changed accessors").
\<close>

definition invalidate :: "string \<Rightarrow> ('b state_scheme) \<Rightarrow> ('b state_scheme)" where
  "invalidate name st =
     st\<lparr>needsUpdate := (\<lambda>a. needsUpdate st a \<or> name \<in> set (accessor a))\<rparr>"

text \<open>
  Modelled from the spec: a dirty attribute is recomputed, whole, by its update function
  (the \<open>update\<close> field given in \<open>initializeState\<close>), which sets the attribute's value;
  the manager clears the flag. The attributes are visited in the order of their
  registration (section 4.5: "indices, positions, colors, pickingColors").
\<close>

definition update_attribute ::
  "('a props_scheme) \<Rightarrow> attribute \<Rightarrow> state \<Rightarrow> error + state" where
  "update_attribute P a st =
     (case a of
        Indices \<Rightarrow>
          (case calculateIndices P of
             Inl e \<Rightarrow> Inl e
           | Inr (value, n) \<Rightarrow>
               Inr ((set_value Indices (Uint32Array value) st)
                      \<lparr>model_vertexCount := n,
                       needsUpdate := (needsUpdate st)(Indices := False)\<rparr>))
      | Positions \<Rightarrow>
          (case calculatePositions P st of
             Inl e \<Rightarrow> Inl e
           | Inr r \<Rightarrow>
               Inr ((set_value Positions (Float32Array (positions_value r)) st)
                      \<lparr>trace := trace st @ positions_calls r,
                       needsUpdate := (needsUpdate st)(Positions := False)\<rparr>))
      | Colors \<Rightarrow>
          (case calculateColors P st of
             Inl e \<Rightarrow> Inl e
           | Inr (value, cs) \<Rightarrow>
               Inr ((set_value Colors (Uint8ClampedArray value) st)
                      \<lparr>trace := trace st @ cs,
                       needsUpdate := (needsUpdate st)(Colors := False)\<rparr>))
      | PickingColors \<Rightarrow>
          (case calculatePickingColors P st of
             Inl e \<Rightarrow> Inl e
           | Inr value \<Rightarrow>
               Inr ((set_value PickingColors (Uint8ClampedArray value) st)
                      \<lparr>needsUpdate := (needsUpdate st)(PickingColors := False)\<rparr>)))"

fun update_attributes :: "('a props_scheme) \<Rightarrow> attribute list \<Rightarrow> state \<Rightarrow> error + state" where
  "update_attributes P [] st = Inr st"
| "update_attributes P (a # as) st =
     (if needsUpdate st a then
        (case update_attribute P a st of
           Inl e \<Rightarrow> Inl e
         | Inr st' \<Rightarrow> update_attributes P as st')
      else update_attributes P as st)"

text \<open>
  Modelled from the spec: one cycle of change detection. The host marks the attributes
  of the changed accessors, calls \<open>updateState\<close>, and has the dirty attributes
  recomputed.
\<close>

definition change_cycle ::
  "('a props_scheme) \<Rightarrow> ('a props_scheme) \<Rightarrow> string list \<Rightarrow> state \<Rightarrow> error + state" where
  "change_cycle oldProps props changed st =
     update_attributes props [Indices, Positions, Colors, PickingColors]
       (updateState oldProps props \<lparr>propsChanged = True\<rparr> (fold invalidate changed st))"

section \<open>The vertices of the grid\<close>

text \<open>
  Vertex \<open>k\<close> of the row-major order is column \<open>k mod uCount\<close> of row \<open>k div uCount\<close>.
  The first pass samples it at \<open>grid_u\<close>, \<open>grid_v\<close>.
\<close>

definition grid_u :: "('a props_scheme) \<Rightarrow> nat \<Rightarrow> jsnum" where
  "grid_u P k = js_div (Num (of_nat (k mod nat (uCount P)))) (js_int (uCount P - 1))"

definition grid_v :: "('a props_scheme) \<Rightarrow> nat \<Rightarrow> jsnum" where
  "grid_v P k = js_div (Num (of_nat (k div nat (uCount P)))) (js_int (vCount P - 1))"

definition sampled :: "('a props_scheme) \<Rightarrow> nat \<Rightarrow> jsnum list" where
  "sampled P k = getPosition P (grid_u P k) (grid_v P k)"

definition sample_x :: "('a props_scheme) \<Rightarrow> nat \<Rightarrow> jsnum" where
  "sample_x P k = js_index (sampled P k) 0"

definition sample_y :: "('a props_scheme) \<Rightarrow> nat \<Rightarrow> jsnum" where
  "sample_y P k = js_index (sampled P k) 1"

definition sample_z :: "('a props_scheme) \<Rightarrow> nat \<Rightarrow> jsnum" where
  "sample_z P k = js_index (sampled P k) 2"

text \<open>The value kept for a sampled coordinate: the coordinate, or 0 when it is not finite.\<close>

fun sanitized :: "jsnum \<Rightarrow> rat" where
  "sanitized (Num q) = q"
| "sanitized x = 0"

definition valid :: "('a props_scheme) \<Rightarrow> nat \<Rightarrow> bool" where
  "valid P k \<longleftrightarrow> isFinite (sample_x P k) \<and> isFinite (sample_y P k) \<and> isFinite (sample_z P k)"

text \<open>The four numbers the first pass stores for vertex \<open>k\<close>.\<close>

definition stored :: "('a props_scheme) \<Rightarrow> nat \<Rightarrow> jsnum list" where
  "stored P k =
     [fround (Num (sanitized (sample_x P k))),
      fround (Num (sanitized (sample_z P k))),
      fround (Num (sanitized (sample_y P k))),
      fround (if valid P k then Num 0 else Num 1)]"

text \<open>
  The number of vertices the first pass visits, the buffer it leaves when the buffer has
  room for all of them, and the extent of one coordinate over the first \<open>n\<close> vertices as
  the pass accumulates it.
\<close>

definition vertex_total :: "('a props_scheme) \<Rightarrow> nat" where
  "vertex_total P = nat (vCount P) * nat (uCount P)"

definition prescale :: "('a props_scheme) \<Rightarrow> jsnum list" where
  "prescale P = concat (map (stored P) [0..<vertex_total P])"

definition extent_of :: "(nat \<Rightarrow> jsnum) \<Rightarrow> nat \<Rightarrow> extent" where
  "extent_of f n =
     \<lparr>min_of = foldl Math_min Infinity (map (\<lambda>k. Num (sanitized (f k))) [0..<n]),
      max_of = foldl Math_max NegInfinity (map (\<lambda>k. Num (sanitized (f k))) [0..<n])\<rparr>"

text \<open>The four numbers of vertex \<open>j\<close> after the second pass over the buffer \<open>value\<close>.\<close>

definition rescaled ::
  "(jsnum \<Rightarrow> jsnum) \<Rightarrow> (jsnum \<Rightarrow> jsnum) \<Rightarrow> (jsnum \<Rightarrow> jsnum) \<Rightarrow> jsnum list \<Rightarrow> nat \<Rightarrow> jsnum list" where
  "rescaled xScale yScale zScale value j =
     (if js_not (value ! (4 * j + 3))
      then [fround (xScale (value ! (4 * j))), fround (zScale (value ! (4 * j + 1))),
            fround (yScale (value ! (4 * j + 2))), value ! (4 * j + 3)]
      else [value ! (4 * j), value ! (4 * j + 1), value ! (4 * j + 2), value ! (4 * j + 3)])"

definition scale_calls :: "jsnum list \<Rightarrow> nat \<Rightarrow> call list" where
  "scale_calls value j =
     (if js_not (value ! (4 * j + 3))
      then [Call_xScale (value ! (4 * j)), Call_zScale (value ! (4 * j + 1)),
            Call_yScale (value ! (4 * j + 2))]
      else [])"

text \<open>
  The call of \<open>getColor\<close> for vertex \<open>i\<close> of the buffer \<open>positions\<close>, and the four bytes
  kept of a colour.
\<close>

definition color_call :: "jsnum list \<Rightarrow> nat \<Rightarrow> call" where
  "color_call positions i =
     Call_getColor (js_index positions (4 * i)) (js_index positions (4 * i + 2))
       (js_index positions (4 * i + 1))"

definition color_bytes :: "jsnum list \<Rightarrow> 8 word list" where
  "color_bytes color =
     [ToUint8Clamp (js_index color 0), ToUint8Clamp (js_index color 1),
      ToUint8Clamp (js_index color 2),
      ToUint8Clamp (if isNaN (js_index color 3) then Num 255 else js_index color 3)]"

definition vertex_color :: "('a props_scheme) \<Rightarrow> jsnum list \<Rightarrow> nat \<Rightarrow> 8 word list" where
  "vertex_color P positions i =
     color_bytes (getColor P (js_index positions (4 * i)) (js_index positions (4 * i + 2))
                    (js_index positions (4 * i + 1)))"

fun is_getScale :: "call \<Rightarrow> bool" where
  "is_getScale (Call_getXScale e) = True"
| "is_getScale (Call_getYScale e) = True"
| "is_getScale (Call_getZScale e) = True"
| "is_getScale c = False"

fun is_scale :: "call \<Rightarrow> bool" where
  "is_scale (Call_xScale a) = True"
| "is_scale (Call_yScale a) = True"
| "is_scale (Call_zScale a) = True"
| "is_scale c = False"

fun is_getColor :: "call \<Rightarrow> bool" where
  "is_getColor (Call_getColor x y z) = True"
| "is_getColor c = False"

text \<open>The indices of the two triangles of the quad \<open>(xIndex, yIndex)\<close>.\<close>

definition quad :: "('a props_scheme) \<Rightarrow> nat \<Rightarrow> nat \<Rightarrow> int list" where
  "quad P xIndex yIndex =
     (let i0 = int yIndex * uCount P + int xIndex;
          i1 = i0 + 1;
          i2 = i0 + uCount P;
          i3 = i2 + 1
      in [i0, i2, i1, i1, i2, i3])"

section \<open>Example layers\<close>

text \<open>
  A 3 by 2 grid whose \<open>z\<close> is infinite on the column \<open>u = 0\<close>, with scales that depend
  on the extent.
\<close>

definition plot3x2 :: props where
  "plot3x2 =
     \<lparr>getPosition = (\<lambda>u v. [u, v, js_div (Num 1) u]),
      getColor = (\<lambda>x y z. [js_mul x (Num 100), js_mul y (Num 100), js_mul z (Num 100)]),
      getXScale = (\<lambda>e x. js_mul x (Num 2)),
      getYScale = (\<lambda>e x. js_sub x (min_of e)),
      getZScale = (\<lambda>e x. js_div x (max_of e)),
      uCount = 3, vCount = 2\<rparr>"

text \<open>The same layer on a grid with 257 columns.\<close>

definition plot257x2 :: props where
  "plot257x2 = plot3x2\<lparr>uCount := 257\<rparr>"

text \<open>A 2 by 2 grid, every sample finite, every scale a doubling.\<close>

definition plot2x2 :: props where
  "plot2x2 =
     \<lparr>getPosition = (\<lambda>u v. [Num 1, Num 2, Num 3]),
      getColor = (\<lambda>x y z. [x, y, z, Num 255]),
      getXScale = (\<lambda>e x. js_mul x (Num 2)),
      getYScale = (\<lambda>e x. js_mul x (Num 2)),
      getZScale = (\<lambda>e x. js_mul x (Num 2)),
      uCount = 2, vCount = 2\<rparr>"

text \<open>A state with nothing computed yet, for a grid of \<open>n\<close> vertices.\<close>

definition fresh :: "int \<Rightarrow> state" where
  "fresh n =
     \<lparr>vertexCount = n, needsUpdate = (\<lambda>a. True), attributes = (\<lambda>a. None),
      model_vertexCount = 0, trace = []\<rparr>"

text \<open>
  A state in which every attribute is up to date, for a grid of \<open>n\<close> vertices whose
  positions buffer is \<open>p\<close>.
\<close>

definition settled :: "int \<Rightarrow> jsnum list \<Rightarrow> state" where
  "settled n p =
     \<lparr>vertexCount = n, needsUpdate = (\<lambda>a. False),
      attributes = (\<lambda>a. if a = Positions then Some (Float32Array p) else None),
      model_vertexCount = 0, trace = []\<rparr>"

section \<open>Loops and block stores\<close>

text \<open>A loop is a fold over its index range, and a nested loop one over the product.\<close>

lemma for_loop_fold: "for_loop k n body s = fold body [k..<nat n] s"
proof (induction k n body s rule: for_loop.induct)
  case (1 k n body s)
  show ?case
  proof (cases "int k < n")
    case True
    then have "k < nat n" by linarith
    then have "[k..<nat n] = k # [Suc k..<nat n]" by (rule upt_conv_Cons)
    with True "1" show ?thesis by (simp add: for_loop.simps [of k])
  next
    case False
    then have "nat n \<le> k" by linarith
    with False show ?thesis by (simp add: for_loop.simps [of k])
  qed
qed

lemma fold_row:
  assumes "0 < m" "b \<le> m"
  shows "fold (\<lambda>k. f (k div m) (k mod m)) [a * m..<a * m + b] s = fold (f a) [0..<b] s"
  using assms(2)
proof (induction b arbitrary: s)
  case 0
  then show ?case by simp
next
  case (Suc b)
  then have "b < m" by simp
  then have "(a * m + b) div m = a" "(a * m + b) mod m = b" using assms by simp_all
  with Suc show ?case by simp
qed

lemma fold_nested:
  "fold (\<lambda>a. fold (f a) [0..<m]) [0..<n] s = fold (\<lambda>k. f (k div m) (k mod m)) [0..<n * m] s"
proof (cases "m = 0")
  case True
  have "fold (\<lambda>a. id) xs s = s" for xs :: "nat list" by (induction xs) simp_all
  with True show ?thesis by (simp add: id_def)
next
  case False
  then have m: "0 < m" by simp
  show ?thesis
  proof (induction n)
    case 0
    then show ?case by simp
  next
    case (Suc n)
    have "[0..<Suc n * m] = [0..<n * m] @ [n * m..<n * m + m]"
      by (metis add.commute le_add2 mult_Suc upt_add_eq_append zero_le)
    then show ?case using Suc fold_row [OF m order_refl, of f n] by simp
  qed
qed

lemma store4:
  assumes "length pre = i" "4 \<le> length post"
  shows "(pre @ post)[i := a, i + 1 := b, i + 2 := c, i + 3 := d] = pre @ [a, b, c, d] @ drop 4 post"
proof -
  obtain p0 p1 p2 p3 r where "post = p0 # p1 # p2 # p3 # r"
    using assms(2) by (auto simp: Suc_le_length_iff eval_nat_numeral)
  then show ?thesis using assms(1) by (auto simp: list_update_append)
qed

lemma store3:
  assumes "length pre = i" "3 \<le> length post"
  shows "(pre @ post)[i := a, i + 1 := b, i + 2 := c] = pre @ [a, b, c] @ drop 3 post"
proof -
  obtain p0 p1 p2 r where "post = p0 # p1 # p2 # r"
    using assms(2) by (auto simp: Suc_le_length_iff eval_nat_numeral)
  then show ?thesis using assms(1) by (auto simp: list_update_append)
qed

lemma store6:
  assumes "length pre = i" "6 \<le> length post"
  shows "(pre @ post)[i := a, i + 1 := b, i + 2 := c, i + 3 := d, i + 4 := e, i + 5 := f]
         = pre @ [a, b, c, d, e, f] @ drop 6 post"
proof -
  obtain p0 p1 p2 p3 p4 p5 r where "post = p0 # p1 # p2 # p3 # p4 # p5 # r"
    using assms(2) by (auto simp: Suc_le_length_iff eval_nat_numeral)
  then show ?thesis using assms(1) by (auto simp: list_update_append)
qed

lemma length_blocks:
  assumes "\<And>k. k < n \<Longrightarrow> length (g k) = c"
  shows "length (concat (map g [0..<n])) = c * n"
  using assms by (induction n) simp_all

lemma nth_blocks:
  assumes "\<And>k. k < n \<Longrightarrow> length (g k) = c" "j < n" "m < c"
  shows "concat (map g [0..<n]) ! (c * j + m) = g j ! m"
  using assms
proof (induction n)
  case 0
  then show ?case by simp
next
  case (Suc n)
  have len: "length (concat (map g [0..<n])) = c * n"
    using Suc.prems(1) by (intro length_blocks) simp
  show ?case
  proof (cases "j < n")
    case True
    then have "c * j + m < c * n"
      using Suc.prems(3) by (metis Suc_leI add.commute mult_Suc_right mult_le_mono2 add_less_mono1 less_le_trans)
    with True Suc len show ?thesis by (simp add: nth_append)
  next
    case False
    with Suc.prems have "j = n" by simp
    with Suc.prems len show ?thesis by (simp add: nth_append)
  qed
qed

lemma block_at:
  assumes "\<And>k. k < n \<Longrightarrow> length (g k) = c" "j < n"
  shows "take c (drop (c * j) (concat (map g [0..<n]))) = g j"
proof -
  have split: "[0..<n] = [0..<j] @ j # [Suc j..<n]"
    using assms(2) by (metis less_imp_le_nat upt_add_eq_append upt_conv_Cons le_add_diff_inverse zero_le add_0)
  have len: "length (concat (map g [0..<j])) = c * j"
    using assms by (intro length_blocks) simp
  have "concat (map g [0..<n]) = concat (map g [0..<j]) @ g j @ concat (map g [Suc j..<n])"
    by (subst split) simp
  then show ?thesis using len assms by simp
qed

section \<open>Properties of the picking colours\<close>

lemma trunc_div_nonneg:
  assumes "0 < b"
  shows "trunc (of_nat a / of_int b) = int a div b"
proof -
  have "(0::rat) \<le> of_nat a / of_int b" using assms by simp
  moreover have "\<lfloor>(of_int (int a) :: rat) / of_int b\<rfloor> = int a div b"
    by (rule floor_divide_of_int_eq)
  ultimately show ?thesis by (simp add: trunc_def)
qed

lemma js_rem_index:
  assumes "0 < U"
  shows "js_rem (Num (of_nat i)) (js_int U) = js_int (int i mod U)"
proof -
  have "(of_int (int i) :: rat) - of_int U * of_int (int i div U) = of_int (int i - U * (int i div U))"
    by simp
  also have "int i - U * (int i div U) = int i mod U"
    by (simp add: minus_mult_div_eq_mod)
  finally have "(of_nat i :: rat) - of_int U * of_int (int i div U) = of_int (int i mod U)"
    by simp
  then show ?thesis using assms by (simp add: trunc_div_nonneg)
qed

lemma yIndex_exact:
  assumes "0 < U"
  shows "js_div (js_sub (Num (of_nat i)) (js_int (int i mod U))) (js_int U) = js_int (int i div U)"
proof -
  have "int i - int i mod U = U * (int i div U)"
    by (simp add: minus_mod_eq_mult_div)
  then have "(of_int (int i) :: rat) - of_int (int i mod U) = of_int U * of_int (int i div U)"
    by (metis of_int_diff of_int_mult)
  then have "(of_nat i :: rat) - of_int (int i mod U) = of_int U * of_int (int i div U)"
    by simp
  then show ?thesis using assms by simp
qed

lemma encodePickingColor_eq:
  assumes "0 < uCount P"
  shows "encodePickingColor P i =
    [js_mul (js_div (js_int (int i mod uCount P)) (js_int (uCount P - 1))) (Num 255),
     js_mul (js_div (js_int (int i div uCount P)) (js_int (vCount P - 1))) (Num 255),
     Num 1]"
  unfolding encodePickingColor_def Let_def js_rem_index [OF assms] yIndex_exact [OF assms]
  by (rule refl)

lemma round_int: "\<lfloor>(of_int k :: rat) + 1 / 2\<rfloor> = k"
  by linarith

lemma scale_back:
  assumes "2 \<le> n"
  shows "Math_round (js_mul (js_div (js_mul (js_div (js_int k) (js_int (n - 1))) (Num 255)) (Num 255))
            (js_int (n - 1))) = js_int k"
proof -
  define m :: rat where "m = of_int (n - 1)"
  have m: "m \<noteq> 0" using assms by (simp add: m_def)
  have "Math_round (js_mul (js_div (js_mul (js_div (js_int k) (Num m)) (Num 255)) (Num 255)) (Num m))
        = js_int k"
    using m by (simp add: round_int)
  then show ?thesis by (simp only: m_def)
qed

lemma encodePickingColor_components:
  "encodePickingColor P i =
     [js_index (encodePickingColor P i) 0, js_index (encodePickingColor P i) 1,
      js_index (encodePickingColor P i) 2]"
  by (simp add: encodePickingColor_def Let_def js_index_def)

lemma store_pickingColor_append:
  assumes "length pre = 3 * n" "3 \<le> length post"
  shows "store_pickingColor P n (pre @ post) =
         pre @ map ToUint8Clamp (encodePickingColor P n) @ drop 3 post"
proof -
  have len: "length pre = n * 3" using assms(1) by simp
  have e: "(pre @ post)[n * 3 := a, n * 3 + 1 := b, n * 3 + 2 := c] = pre @ [a, b, c] @ drop 3 post"
    for a b c by (rule store3 [OF len assms(2)])
  have "map ToUint8Clamp (encodePickingColor P n) =
        [ToUint8Clamp (js_index (encodePickingColor P n) 0),
         ToUint8Clamp (js_index (encodePickingColor P n) 1),
         ToUint8Clamp (js_index (encodePickingColor P n) 2)]"
    by (subst encodePickingColor_components) simp
  then show ?thesis
    unfolding store_pickingColor_def Let_def e by simp
qed

lemma picking_fold:
  assumes "3 * n \<le> length v0"
  shows "fold (store_pickingColor P) [0..<n] v0 =
         concat (map (\<lambda>i. map ToUint8Clamp (encodePickingColor P i)) [0..<n]) @ drop (3 * n) v0"
  using assms
proof (induction n)
  case 0
  then show ?case by simp
next
  case (Suc n)
  let ?pre = "concat (map (\<lambda>i. map ToUint8Clamp (encodePickingColor P i)) [0..<n])"
  have len: "length ?pre = 3 * n"
    by (rule length_blocks) (simp add: encodePickingColor_def Let_def)
  have post: "3 \<le> length (drop (3 * n) v0)" using Suc.prems by simp
  have "fold (store_pickingColor P) [0..<Suc n] v0 =
        store_pickingColor P n (?pre @ drop (3 * n) v0)"
    using Suc by simp
  also have "\<dots> = ?pre @ map ToUint8Clamp (encodePickingColor P n) @ drop 3 (drop (3 * n) v0)"
    by (rule store_pickingColor_append [OF len post])
  finally show ?case by (simp add: add.commute)
qed


lemma calculatePickingColors_eq:
  assumes "0 \<le> vertexCount st"
  shows "calculatePickingColors P st =
         Inr (concat (map (\<lambda>i. map ToUint8Clamp (encodePickingColor P i))
                [0..<nat (vertexCount st)]))"
proof -
  have n: "nat (vertexCount st * 3) = 3 * nat (vertexCount st)"
    using assms by (simp add: nat_mult_distrib)
  show ?thesis
    using assms
    by (simp add: calculatePickingColors_def new_array_def for_loop_fold picking_fold n)
qed

lemma ToUint8Clamp_1: "ToUint8Clamp (Num 1) = 1"
  by (simp add: round_half_even_def)

text \<open>
  Claim C1 (picking round-trip). For a grid with \<open>uCount, vCount \<ge> 2\<close> and a vertex index
  \<open>i\<close> in \<open>[0, uCount * vCount)\<close>, \<open>decodePickingColor\<close> applied to
  \<open>encodePickingColor i\<close> yields a pair \<open>(u, v)\<close> with
  \<open>round (u * (uCount - 1)) = i mod uCount\<close> and
  \<open>round (v * (vCount - 1)) = (i - i mod uCount) / uCount\<close>. The arithmetic is exact:
  \<open>encodePickingColor\<close> itself does not round its components.
\<close>

theorem picking_round_trip:
  assumes "2 \<le> uCount P" "2 \<le> vCount P" "int i < uCount P * vCount P"
  shows "case decodePickingColor (encodePickingColor P i) of
           Inr [u, v] \<Rightarrow>
             Math_round (js_mul u (js_int (uCount P - 1))) = js_int (int i mod uCount P) \<and>
             Math_round (js_mul v (js_int (vCount P - 1))) =
               js_int ((int i - int i mod uCount P) div uCount P)
         | _ \<Rightarrow> False"
proof -
  have U: "0 < uCount P" using assms(1) by auto
  have d: "(int i - int i mod uCount P) div uCount P = int i div uCount P"
    using U by (simp add: minus_mod_eq_mult_div)
  have dec: "decodePickingColor (encodePickingColor P i) =
      Inr [js_div (js_mul (js_div (js_int (int i mod uCount P)) (js_int (uCount P - 1))) (Num 255)) (Num 255),
           js_div (js_mul (js_div (js_int (int i div uCount P)) (js_int (vCount P - 1))) (Num 255)) (Num 255)]"
    unfolding encodePickingColor_eq [OF U] by (simp add: decodePickingColor_def js_index_def)
  show ?thesis
    unfolding dec d using scale_back [OF assms(1)] scale_back [OF assms(2)] by simp
qed


text \<open>The round-trip at vertex 4 of the 3 by 2 grid.\<close>

theorem picking_round_trip_witness:
  "2 \<le> uCount plot3x2 \<and> 2 \<le> vCount plot3x2 \<and> int 4 < uCount plot3x2 * vCount plot3x2 \<and>
   (case decodePickingColor (encodePickingColor plot3x2 4) of
      Inr [u, v] \<Rightarrow>
        Math_round (js_mul u (js_int (uCount plot3x2 - 1))) = js_int (int 4 mod uCount plot3x2) \<and>
        Math_round (js_mul v (js_int (vCount plot3x2 - 1))) =
          js_int ((int 4 - int 4 mod uCount plot3x2) div uCount plot3x2)
    | _ \<Rightarrow> False)"
  using picking_round_trip [of plot3x2 4] by (simp add: plot3x2_def)

text \<open>
  Claim C5 (sentinel separation). \<open>decodePickingColor\<close> returns \<open>-1\<close> for every colour
  whose third component is 0, whatever the first two are; the third component of an
  encoded colour is always 1, also as the byte stored, so an encoded colour never decodes
  to \<open>-1\<close>.
\<close>

theorem sentinel_separation:
  "decodePickingColor [r, g, Num 0] = Inl (Num (- 1)) \<and>
   js_index (encodePickingColor P i) 2 = Num 1 \<and>
   decodePickingColor (encodePickingColor P i) \<noteq> Inl (Num (- 1)) \<and>
   ToUint8Clamp (js_index (encodePickingColor P i) 2) = 1"
  by (simp add: decodePickingColor_def encodePickingColor_def js_index_def Let_def ToUint8Clamp_1
      del: ToUint8Clamp.simps)

text \<open>The same at a concrete colour and at vertex 4 of the 3 by 2 grid.\<close>

theorem sentinel_separation_witness:
  "decodePickingColor [Num 128, Num 255, Num 0] = Inl (Num (- 1)) \<and>
   js_index (encodePickingColor plot3x2 4) 2 = Num 1 \<and>
   decodePickingColor (encodePickingColor plot3x2 4) \<noteq> Inl (Num (- 1)) \<and>
   ToUint8Clamp (js_index (encodePickingColor plot3x2 4) 2) = 1"
  by (rule sentinel_separation [of "Num 128" "Num 255" plot3x2 4])

text \<open>
  Claim C4 as stated fails: \<open>encodePickingColor\<close> returns its components unrounded. At
  vertex 1 of the 3 by 2 grid the first component is \<open>255 / 2\<close>, where the claimed formula
  gives \<open>round (1 / 2 * 255) = 128\<close>.
\<close>

theorem encode_unrounded_counterexample:
  "encodePickingColor plot3x2 1 = [Num (255 / 2), Num 0, Num 1] \<and>
   encodePickingColor plot3x2 1 \<noteq>
     [Math_round (js_mul (js_div (js_int (1 mod 3)) (js_int (3 - 1))) (Num 255)),
      Math_round (js_mul (js_div (js_int ((1 - 1 mod 3) div 3)) (js_int (2 - 1))) (Num 255)),
      Num 1]"
  by code_simp

text \<open>
  Claim C4, amended. For a grid with \<open>uCount, vCount \<ge> 2\<close> and \<open>i\<close> in
  \<open>[0, uCount * vCount)\<close>, with \<open>uIndex = i mod uCount\<close> and
  \<open>vIndex = (i - uIndex) / uCount\<close>, \<open>encodePickingColor i\<close> is the unrounded triple
  \<open>(uIndex / (uCount - 1) * 255, vIndex / (vCount - 1) * 255, 1)\<close>; the rounding happens
  in \<open>calculatePickingColors\<close>, whose buffer holds for vertex \<open>i\<close> the three components
  as converted by the \<open>Uint8ClampedArray\<close> (nearest integer, a tie going to the even one),
  the third being 1.
\<close>

theorem picking_color_formula:
  assumes "2 \<le> uCount P" "2 \<le> vCount P" "int i < uCount P * vCount P"
    and "vertexCount st = uCount P * vCount P"
  shows "let uIndex = int i mod uCount P;
             vIndex = (int i - uIndex) div uCount P;
             r = Num (of_int uIndex / of_int (uCount P - 1) * 255);
             g = Num (of_int vIndex / of_int (vCount P - 1) * 255)
         in encodePickingColor P i = [r, g, Num 1] \<and>
            (case calculatePickingColors P st of
               Inr value \<Rightarrow> take 3 (drop (3 * i) value) = [ToUint8Clamp r, ToUint8Clamp g, 1]
             | Inl e \<Rightarrow> False)"
proof -
  have U: "0 < uCount P" using assms(1) by simp
  have d: "(int i - int i mod uCount P) div uCount P = int i div uCount P"
    using U by (simp add: minus_mod_eq_mult_div)
  have nz: "(of_int (uCount P - 1) :: rat) \<noteq> 0" "(of_int (vCount P - 1) :: rat) \<noteq> 0"
    using assms(1,2) by simp_all
  have enc: "encodePickingColor P i =
      [Num (of_int (int i mod uCount P) / of_int (uCount P - 1) * 255),
       Num (of_int (int i div uCount P) / of_int (vCount P - 1) * 255), Num 1]"
    unfolding encodePickingColor_eq [OF U] using nz by simp
  have n: "0 \<le> vertexCount st" "i < nat (vertexCount st)"
    using assms by simp_all
  have "take 3 (drop (3 * i)
          (concat (map (\<lambda>i. map ToUint8Clamp (encodePickingColor P i)) [0..<nat (vertexCount st)])))
        = map ToUint8Clamp (encodePickingColor P i)"
    by (rule block_at [OF _ n(2)]) (simp add: encodePickingColor_def Let_def)
  then show ?thesis
    unfolding Let_def d calculatePickingColors_eq [OF n(1)]
    by (simp add: enc ToUint8Clamp_1 del: ToUint8Clamp.simps)
qed

text \<open>The formula at vertex 1 of the 3 by 2 grid.\<close>

theorem picking_color_formula_witness:
  "2 \<le> uCount plot3x2 \<and> 2 \<le> vCount plot3x2 \<and> int 1 < uCount plot3x2 * vCount plot3x2 \<and>
   vertexCount (fresh 6) = uCount plot3x2 * vCount plot3x2 \<and>
   (let uIndex = int 1 mod uCount plot3x2;
        vIndex = (int 1 - uIndex) div uCount plot3x2;
        r = Num (of_int uIndex / of_int (uCount plot3x2 - 1) * 255);
        g = Num (of_int vIndex / of_int (vCount plot3x2 - 1) * 255)
    in encodePickingColor plot3x2 1 = [r, g, Num 1] \<and>
       (case calculatePickingColors plot3x2 (fresh 6) of
          Inr value \<Rightarrow> take 3 (drop (3 * 1) value) = [ToUint8Clamp r, ToUint8Clamp g, 1]
        | Inl e \<Rightarrow> False))"
proof -
  have h: "2 \<le> uCount plot3x2" "2 \<le> vCount plot3x2" "int 1 < uCount plot3x2 * vCount plot3x2"
    "vertexCount (fresh 6) = uCount plot3x2 * vCount plot3x2"
    by (simp_all add: plot3x2_def fresh_def)
  from picking_color_formula [OF h] h show ?thesis by blast
qed

text \<open>
  The stored bytes keep 256 levels. Decoded from the bytes of vertex 128 of a grid with
  257 columns, \<open>u * (uCount - 1)\<close> rounds to 129: the round-trip of the unrounded triple
  does not carry over to the buffer on grids with more than 256 samples on an axis.
\<close>

lemma stored_bytes_lose_round_trip:
  "map ToUint8Clamp (encodePickingColor plot257x2 128) = [128, 0, 1] \<and>
   decodePickingColor (map byte_value (map ToUint8Clamp (encodePickingColor plot257x2 128))) =
     Inr [Num (128 / 255), Num 0] \<and>
   Math_round (js_mul (Num (128 / 255)) (js_int (uCount plot257x2 - 1))) = Num 129 \<and>
   int 128 mod uCount plot257x2 = 128"
  by code_simp

section \<open>Properties of the index buffer\<close>

text \<open>
  The buffer is the sequence of the quads' six indices, the quads taken column by column
  (\<open>xIndex\<close> is the outer loop).
\<close>

lemma store_quad_append:
  assumes "length pre = i" "6 \<le> length post"
  shows "store_quad P x y (i, pre @ post) = (i + 6, pre @ map of_int (quad P x y) @ drop 6 post)"
  unfolding store_quad_def quad_def Let_def prod.case store6 [OF assms] by simp

lemma length_quad: "length (quad P x y) = 6"
  by (simp add: quad_def Let_def)

lemma indices_fold:
  assumes "6 * n \<le> length v0"
  shows "fold (\<lambda>k. store_quad P (k div b) (k mod b)) [0..<n] (0, v0) =
         (6 * n, concat (map (\<lambda>k. map of_int (quad P (k div b) (k mod b))) [0..<n]) @ drop (6 * n) v0)"
  using assms
proof (induction n)
  case 0
  then show ?case by simp
next
  case (Suc n)
  let ?pre = "concat (map (\<lambda>k. map of_int (quad P (k div b) (k mod b))) [0..<n]) :: 32 word list"
  have len: "length ?pre = 6 * n"
    by (rule length_blocks) (simp add: length_quad)
  have post: "6 \<le> length (drop (6 * n) v0)" using Suc.prems by simp
  have "fold (\<lambda>k. store_quad P (k div b) (k mod b)) [0..<Suc n] (0, v0) =
        store_quad P (n div b) (n mod b) (6 * n, ?pre @ drop (6 * n) v0)"
    using Suc by simp
  also have "\<dots> = (6 * n + 6, ?pre @ map of_int (quad P (n div b) (n mod b)) @ drop 6 (drop (6 * n) v0))"
    by (rule store_quad_append [OF len post])
  finally show ?case by (simp add: add.commute)
qed

lemma calculateIndices_eq:
  assumes "1 \<le> uCount P" "1 \<le> vCount P"
  shows "calculateIndices P =
         Inr (concat (map (\<lambda>k. map of_int (quad P (k div nat (vCount P - 1)) (k mod nat (vCount P - 1))))
                [0..<nat (uCount P - 1) * nat (vCount P - 1)]),
              (uCount P - 1) * (vCount P - 1) * 2 * 3)"
proof -
  let ?a = "nat (uCount P - 1)" and ?b = "nat (vCount P - 1)"
  have c: "0 \<le> (uCount P - 1) * (vCount P - 1) * 2 * 3" using assms by simp
  have n: "nat ((uCount P - 1) * (vCount P - 1) * 2 * 3) = 6 * (?a * ?b)"
    using assms by (simp add: nat_mult_distrib)
  show ?thesis
    unfolding calculateIndices_def Let_def new_array_def for_loop_fold fold_nested n
    using c by (simp add: indices_fold)
qed

lemma quad_bounds:
  assumes "int x < uCount P - 1" "int y < vCount P - 1" "e \<in> set (quad P x y)"
  shows "0 \<le> e \<and> e < uCount P * vCount P"
proof -
  have U: "0 \<le> uCount P" using assms(1) by simp
  have "(int y + 2) * uCount P \<le> vCount P * uCount P"
    using assms(2) U by (intro mult_right_mono) simp_all
  then have top: "int y * uCount P + 2 * uCount P \<le> uCount P * vCount P"
    by (simp add: algebra_simps)
  have "0 \<le> int y * uCount P" using U by simp
  with top assms(1,3) show ?thesis by (auto simp: quad_def Let_def)
qed

lemma uint_of_int_le:
  assumes "0 \<le> e"
  shows "uint (of_int e :: 32 word) \<le> e"
  using assms by (simp add: uint_word_of_int zmod_le_nonneg_dividend)

text \<open>The buffer of the 3 by 2 grid.\<close>

lemma plot3x2_indices:
  "calculateIndices plot3x2 = Inr ([0, 3, 1, 1, 3, 4, 1, 4, 2, 2, 4, 5], 12)"
  by code_simp


text \<open>
  Claim C2 (index buffer size and bounds). For \<open>uCount, vCount \<ge> 2\<close> the buffer made by
  \<open>calculateIndices\<close> has exactly \<open>(uCount - 1) * (vCount - 1) * 6\<close> entries, and every
  entry is an integer in \<open>[0, uCount * vCount)\<close>.
\<close>

theorem indices_size_and_bounds:
  assumes "2 \<le> uCount P" "2 \<le> vCount P"
  shows "case calculateIndices P of
           Inr (indices, n) \<Rightarrow>
             int (length indices) = (uCount P - 1) * (vCount P - 1) * 6 \<and>
             (\<forall>w \<in> set indices. 0 \<le> uint w \<and> uint w < uCount P * vCount P)
         | Inl e \<Rightarrow> False"
proof -
  let ?a = "nat (uCount P - 1)" and ?b = "nat (vCount P - 1)"
  let ?g = "\<lambda>k. map of_int (quad P (k div ?b) (k mod ?b)) :: 32 word list"
  have b: "0 < ?b" using assms(2) by simp
  have len: "length (concat (map ?g [0..<?a * ?b])) = 6 * (?a * ?b)"
    by (rule length_blocks) (simp add: length_quad)
  have size: "int (6 * (?a * ?b)) = (uCount P - 1) * (vCount P - 1) * 6"
    using assms by simp
  have bound: "uint w < uCount P * vCount P" if "w \<in> set (concat (map ?g [0..<?a * ?b]))" for w
  proof -
    from that obtain k e where k: "k < ?a * ?b" and e: "e \<in> set (quad P (k div ?b) (k mod ?b))"
      and w: "w = of_int e" by auto
    have "k div ?b < ?a" using k b by (simp add: less_mult_imp_div_less)
    then have x: "int (k div ?b) < uCount P - 1" by linarith
    have "k mod ?b < ?b" using b by simp
    then have y: "int (k mod ?b) < vCount P - 1" by linarith
    from quad_bounds [OF x y e] uint_of_int_le [of e] show ?thesis unfolding w by linarith
  qed
  show ?thesis
    using assms len size bound by (simp add: calculateIndices_eq)
qed

text \<open>Size and bounds on the 3 by 2 grid.\<close>

theorem indices_size_and_bounds_witness:
  "2 \<le> uCount plot3x2 \<and> 2 \<le> vCount plot3x2 \<and>
   (case calculateIndices plot3x2 of
      Inr (indices, n) \<Rightarrow>
        int (length indices) = (uCount plot3x2 - 1) * (vCount plot3x2 - 1) * 6 \<and>
        (\<forall>w \<in> set indices. 0 \<le> uint w \<and> uint w < uCount plot3x2 * vCount plot3x2)
    | Inl e \<Rightarrow> False)"
proof -
  have h: "2 \<le> uCount plot3x2" "2 \<le> vCount plot3x2"
    by (simp_all add: plot3x2_def)
  from indices_size_and_bounds [OF h] h show ?thesis by blast
qed

text \<open>
  Claim C3 (quad triangulation and winding). For \<open>uCount, vCount \<ge> 2\<close> and a quad
  \<open>(uIndex, vIndex)\<close> with \<open>uIndex < uCount - 1\<close> and \<open>vIndex < vCount - 1\<close>, the six slots
  of the quad, which start at \<open>6 * (uIndex * (vCount - 1) + vIndex)\<close>, hold the triangles
  \<open>(i0, i2, i1)\<close> and \<open>(i1, i2, i3)\<close> in this order, where
  \<open>i0 = vIndex * uCount + uIndex\<close>, \<open>i1 = i0 + 1\<close>, \<open>i2 = i0 + uCount\<close> and \<open>i3 = i2 + 1\<close>;
  they are held as unsigned 32-bit integers, which are these very numbers when the grid
  has at most \<open>2 ^ 32\<close> vertices.
\<close>

theorem quad_triangles:
  assumes "2 \<le> uCount P" "2 \<le> vCount P"
    and "int uIndex < uCount P - 1" "int vIndex < vCount P - 1"
  shows "case calculateIndices P of
           Inr (indices, n) \<Rightarrow>
             (let i0 = int vIndex * uCount P + int uIndex;
                  i1 = i0 + 1;
                  i2 = i0 + uCount P;
                  i3 = i2 + 1;
                  slots = take 6 (drop (6 * (uIndex * nat (vCount P - 1) + vIndex)) indices)
              in slots = map of_int [i0, i2, i1, i1, i2, i3] \<and>
                 (uCount P * vCount P \<le> 2 ^ 32 \<longrightarrow> map uint slots = [i0, i2, i1, i1, i2, i3]))
         | Inl e \<Rightarrow> False"
proof -
  let ?a = "nat (uCount P - 1)" and ?b = "nat (vCount P - 1)"
  let ?g = "\<lambda>k. map of_int (quad P (k div ?b) (k mod ?b)) :: 32 word list"
  have y: "vIndex < ?b" using assms(4) by linarith
  have x: "uIndex < ?a" using assms(3) by linarith
  have "uIndex * ?b + vIndex < uIndex * ?b + ?b" using y by simp
  also have "\<dots> = (uIndex + 1) * ?b" by simp
  also have "\<dots> \<le> ?a * ?b" using x by (intro mult_le_mono1) simp
  finally have j: "uIndex * ?b + vIndex < ?a * ?b" .
  have "take 6 (drop (6 * (uIndex * ?b + vIndex)) (concat (map ?g [0..<?a * ?b]))) =
        ?g (uIndex * ?b + vIndex)"
    by (rule block_at [OF _ j]) (simp add: length_quad)
  also have "\<dots> = map of_int (quad P uIndex vIndex)" using y by simp
  finally have slots: "take 6 (drop (6 * (uIndex * ?b + vIndex)) (concat (map ?g [0..<?a * ?b]))) =
      map of_int (quad P uIndex vIndex)" .
  have exact: "map uint (map of_int (quad P uIndex vIndex) :: 32 word list) = quad P uIndex vIndex"
    if small: "uCount P * vCount P \<le> 2 ^ 32"
  proof -
    have "uint (of_int e :: 32 word) = e" if "e \<in> set (quad P uIndex vIndex)" for e
      using quad_bounds [OF assms(3,4) that] small by (simp add: uint_word_of_int)
    then show ?thesis by (simp add: map_idI)
  qed
  show ?thesis
    using assms(1,2) slots exact by (simp add: calculateIndices_eq Let_def quad_def)
qed

text \<open>The quad \<open>(1, 0)\<close> of the 3 by 2 grid.\<close>

theorem quad_triangles_witness:
  "2 \<le> uCount plot3x2 \<and> 2 \<le> vCount plot3x2 \<and>
   int 1 < uCount plot3x2 - 1 \<and> int 0 < vCount plot3x2 - 1 \<and>
   uCount plot3x2 * vCount plot3x2 \<le> 2 ^ 32 \<and>
   (case calculateIndices plot3x2 of
      Inr (indices, n) \<Rightarrow>
        (let i0 = int 0 * uCount plot3x2 + int 1;
             i1 = i0 + 1;
             i2 = i0 + uCount plot3x2;
             i3 = i2 + 1;
             slots = take 6 (drop (6 * (1 * nat (vCount plot3x2 - 1) + 0)) indices)
         in slots = map of_int [i0, i2, i1, i1, i2, i3] \<and>
            (uCount plot3x2 * vCount plot3x2 \<le> 2 ^ 32 \<longrightarrow>
               map uint slots = [i0, i2, i1, i1, i2, i3]))
    | Inl e \<Rightarrow> False)"
proof -
  have h:
    "2 \<le> uCount plot3x2"
    "2 \<le> vCount plot3x2"
    "int 1 < uCount plot3x2 - 1"
    "int 0 < vCount plot3x2 - 1"
    by (simp_all add: plot3x2_def)
  have more:
    "uCount plot3x2 * vCount plot3x2 \<le> 2 ^ 32"
    by code_simp+
  from quad_triangles [OF h] h more show ?thesis by blast
qed

section \<open>Properties of the positions\<close>

text \<open>
  The first pass leaves, for every vertex in row-major order, the four numbers of
  \<open>stored\<close>, the extents of the sanitized coordinates, and one call of \<open>getPosition\<close>
  per vertex; the second pass rewrites each vertex as \<open>rescaled\<close> says.
\<close>

lemma sanitized_eq: "(if \<not> isFinite x then Num 0 else x) = Num (sanitized x)"
  by (cases x) simp_all

lemma sample_vertex_append:
  assumes "val s = pre @ post" "length pre = idx s" "4 \<le> length post"
  shows "sample_vertex P (k div nat (uCount P)) (k mod nat (uCount P)) s =
         s\<lparr>idx := idx s + 4,
           val := pre @ stored P k @ drop 4 post,
           xMin := Math_min (xMin s) (Num (sanitized (sample_x P k))),
           xMax := Math_max (xMax s) (Num (sanitized (sample_x P k))),
           yMin := Math_min (yMin s) (Num (sanitized (sample_y P k))),
           yMax := Math_max (yMax s) (Num (sanitized (sample_y P k))),
           zMin := Math_min (zMin s) (Num (sanitized (sample_z P k))),
           zMax := Math_max (zMax s) (Num (sanitized (sample_z P k))),
           calls := calls s @ [Call_getPosition (grid_u P k) (grid_v P k)]\<rparr>"
  unfolding sample_vertex_def Let_def sanitized_eq assms(1) store4 [OF assms(2,3)]
  by (simp add: stored_def valid_def sample_x_def sample_y_def sample_z_def sampled_def
      grid_u_def grid_v_def)

lemma length_stored: "length (stored P k) = 4"
  by (simp add: stored_def)

lemma sample_fold:
  assumes "4 * n \<le> length v0"
  shows "fold (\<lambda>k. sample_vertex P (k div nat (uCount P)) (k mod nat (uCount P))) [0..<n]
           \<lparr>idx = 0, val = v0,
            xMin = Infinity, xMax = NegInfinity,
            yMin = Infinity, yMax = NegInfinity,
            zMin = Infinity, zMax = NegInfinity,
            calls = []\<rparr> =
         \<lparr>idx = 4 * n,
          val = concat (map (stored P) [0..<n]) @ drop (4 * n) v0,
          xMin = foldl Math_min Infinity (map (\<lambda>k. Num (sanitized (sample_x P k))) [0..<n]),
          xMax = foldl Math_max NegInfinity (map (\<lambda>k. Num (sanitized (sample_x P k))) [0..<n]),
          yMin = foldl Math_min Infinity (map (\<lambda>k. Num (sanitized (sample_y P k))) [0..<n]),
          yMax = foldl Math_max NegInfinity (map (\<lambda>k. Num (sanitized (sample_y P k))) [0..<n]),
          zMin = foldl Math_min Infinity (map (\<lambda>k. Num (sanitized (sample_z P k))) [0..<n]),
          zMax = foldl Math_max NegInfinity (map (\<lambda>k. Num (sanitized (sample_z P k))) [0..<n]),
          calls = map (\<lambda>k. Call_getPosition (grid_u P k) (grid_v P k)) [0..<n]\<rparr>"
  using assms
proof (induction n)
  case 0
  then show ?case by simp
next
  case (Suc n)
  let ?pre = "concat (map (stored P) [0..<n])"
  have len: "length ?pre = 4 * n"
    by (rule length_blocks) (simp add: length_stored)
  have post: "4 \<le> length (drop (4 * n) v0)" using Suc.prems by simp
  have ih: "4 * n \<le> length v0" using Suc.prems by simp
  let ?F = "\<lambda>k. sample_vertex P (k div nat (uCount P)) (k mod nat (uCount P))"
  let ?init = "\<lparr>idx = 0, val = v0,
            xMin = Infinity, xMax = NegInfinity,
            yMin = Infinity, yMax = NegInfinity,
            zMin = Infinity, zMax = NegInfinity,
            calls = []\<rparr>"
  have "fold ?F [0..<Suc n] ?init = ?F n (fold ?F [0..<n] ?init)" by simp
  also have "\<dots> = ?F n \<lparr>idx = 4 * n,
          val = ?pre @ drop (4 * n) v0,
          xMin = foldl Math_min Infinity (map (\<lambda>k. Num (sanitized (sample_x P k))) [0..<n]),
          xMax = foldl Math_max NegInfinity (map (\<lambda>k. Num (sanitized (sample_x P k))) [0..<n]),
          yMin = foldl Math_min Infinity (map (\<lambda>k. Num (sanitized (sample_y P k))) [0..<n]),
          yMax = foldl Math_max NegInfinity (map (\<lambda>k. Num (sanitized (sample_y P k))) [0..<n]),
          zMin = foldl Math_min Infinity (map (\<lambda>k. Num (sanitized (sample_z P k))) [0..<n]),
          zMax = foldl Math_max NegInfinity (map (\<lambda>k. Num (sanitized (sample_z P k))) [0..<n]),
          calls = map (\<lambda>k. Call_getPosition (grid_u P k) (grid_v P k)) [0..<n]\<rparr>"
    by (simp only: Suc.IH [OF ih])
  also have "\<dots> = \<lparr>idx = 4 * Suc n,
          val = concat (map (stored P) [0..<Suc n]) @ drop (4 * Suc n) v0,
          xMin = foldl Math_min Infinity (map (\<lambda>k. Num (sanitized (sample_x P k))) [0..<Suc n]),
          xMax = foldl Math_max NegInfinity (map (\<lambda>k. Num (sanitized (sample_x P k))) [0..<Suc n]),
          yMin = foldl Math_min Infinity (map (\<lambda>k. Num (sanitized (sample_y P k))) [0..<Suc n]),
          yMax = foldl Math_max NegInfinity (map (\<lambda>k. Num (sanitized (sample_y P k))) [0..<Suc n]),
          zMin = foldl Math_min Infinity (map (\<lambda>k. Num (sanitized (sample_z P k))) [0..<Suc n]),
          zMax = foldl Math_max NegInfinity (map (\<lambda>k. Num (sanitized (sample_z P k))) [0..<Suc n]),
          calls = map (\<lambda>k. Call_getPosition (grid_u P k) (grid_v P k)) [0..<Suc n]\<rparr>"
    using Suc.prems
    by (subst sample_vertex_append [where pre = ?pre and post = "drop (4 * n) v0"])
       (simp_all add: len add.commute)
  finally show ?case .
qed

lemma sample_pass_eq:
  assumes "4 * vertex_total P \<le> length v0"
  shows "sample_pass P v0 =
         \<lparr>idx = 4 * vertex_total P,
          val = prescale P @ drop (4 * vertex_total P) v0,
          xMin = min_of (extent_of (sample_x P) (vertex_total P)),
          xMax = max_of (extent_of (sample_x P) (vertex_total P)),
          yMin = min_of (extent_of (sample_y P) (vertex_total P)),
          yMax = max_of (extent_of (sample_y P) (vertex_total P)),
          zMin = min_of (extent_of (sample_z P) (vertex_total P)),
          zMax = max_of (extent_of (sample_z P) (vertex_total P)),
          calls = map (\<lambda>k. Call_getPosition (grid_u P k) (grid_v P k)) [0..<vertex_total P]\<rparr>"
  unfolding sample_pass_def for_loop_fold fold_nested
  using sample_fold [of "vertex_total P" v0 P] assms
  by (simp add: vertex_total_def prescale_def extent_of_def)

lemma rescale_vertex_append:
  assumes "length pre = 4 * j"
  shows "rescale_vertex xs ys zs j (pre @ p0 # p1 # p2 # p3 # r, cs) =
         (if js_not p3
          then (pre @ fround (xs p0) # fround (zs p1) # fround (ys p2) # p3 # r,
                cs @ [Call_xScale p0, Call_zScale p1, Call_yScale p2])
          else (pre @ p0 # p1 # p2 # p3 # r, cs))"
proof -
  have "length pre = j * 4" using assms by simp
  then show ?thesis
    by (simp add: rescale_vertex_def Let_def js_index_def nth_append list_update_append)
qed

lemma drop4:
  assumes "m + 4 \<le> length v"
  shows "drop m v = v ! m # v ! (m + 1) # v ! (m + 2) # v ! (m + 3) # drop (m + 4) v"
proof -
  have "drop m v = v ! m # drop (Suc m) v"
    using assms by (simp add: Cons_nth_drop_Suc)
  also have "drop (Suc m) v = v ! (m + 1) # drop (Suc (Suc m)) v"
    using assms by (simp add: Cons_nth_drop_Suc)
  also have "drop (Suc (Suc m)) v = v ! (m + 2) # drop (Suc (Suc (Suc m))) v"
    using assms by (simp add: Cons_nth_drop_Suc)
  also have "drop (Suc (Suc (Suc m))) v = v ! (m + 3) # drop (m + 4) v"
    using assms by (simp add: Cons_nth_drop_Suc [symmetric] eval_nat_numeral)
  finally show ?thesis .
qed

lemma length_rescaled: "length (rescaled xs ys zs v j) = 4"
  by (simp add: rescaled_def)

lemma rescale_fold:
  assumes "4 * n \<le> length v0"
  shows "fold (rescale_vertex xs ys zs) [0..<n] (v0, cs0) =
         (concat (map (rescaled xs ys zs v0) [0..<n]) @ drop (4 * n) v0,
          cs0 @ concat (map (scale_calls v0) [0..<n]))"
  using assms
proof (induction n)
  case 0
  then show ?case by simp
next
  case (Suc n)
  let ?pre = "concat (map (rescaled xs ys zs v0) [0..<n])"
  have len: "length ?pre = 4 * n"
    by (rule length_blocks) (simp add: length_rescaled)
  have ih: "4 * n \<le> length v0" using Suc.prems by simp
  have d: "drop (4 * n) v0 =
      v0 ! (4 * n) # v0 ! (4 * n + 1) # v0 ! (4 * n + 2) # v0 ! (4 * n + 3) # drop (4 * n + 4) v0"
    using Suc.prems by (intro drop4) simp
  have "fold (rescale_vertex xs ys zs) [0..<Suc n] (v0, cs0) =
        rescale_vertex xs ys zs n (?pre @ drop (4 * n) v0, cs0 @ concat (map (scale_calls v0) [0..<n]))"
    using Suc.IH [OF ih] by simp
  also have "\<dots> = (?pre @ rescaled xs ys zs v0 n @ drop (4 * n + 4) v0,
         cs0 @ concat (map (scale_calls v0) [0..<n]) @ scale_calls v0 n)"
    by (subst d) (simp add: rescale_vertex_append [OF len] rescaled_def scale_calls_def)
  finally show ?case by (simp add: add.commute)
qed


lemma length_prescale: "length (prescale P) = 4 * vertex_total P"
  unfolding prescale_def by (rule length_blocks) (simp add: length_stored)

lemma extent_eta: "\<lparr>min_of = min_of e, max_of = max_of e\<rparr> = e"
  by simp

lemma calculatePositions_eq:
  assumes "vertexCount st = uCount P * vCount P" "0 \<le> uCount P" "0 \<le> vCount P"
  shows "calculatePositions P st =
         (let n = vertex_total P;
              ex = extent_of (sample_x P) n;
              ey = extent_of (sample_y P) n;
              ez = extent_of (sample_z P) n
          in Inr \<lparr>positions_value =
                   concat (map (rescaled (getXScale P ex) (getYScale P ey) (getZScale P ez)
                                  (prescale P)) [0..<n]),
                  onUpdate_arg = (getXScale P ex, getYScale P ey, getZScale P ez),
                  positions_calls =
                    map (\<lambda>k. Call_getPosition (grid_u P k) (grid_v P k)) [0..<n] @
                    [Call_getXScale ex, Call_getYScale ey, Call_getZScale ez] @
                    concat (map (scale_calls (prescale P)) [0..<n]) @ [Call_onUpdate]\<rparr>)"
proof -
  let ?n = "vertex_total P"
  let ?v0 = "replicate (nat (vertexCount st * size_of Positions)) (Num 0)"
  have n: "nat (vertexCount st) = ?n"
    using assms by (simp add: vertex_total_def nat_mult_distrib mult.commute)
  have len: "length ?v0 = 4 * ?n"
    using assms n by (simp add: nat_mult_distrib)
  have "0 \<le> uCount P * vCount P" using assms(2,3) by simp
  then have nonneg: "\<not> vertexCount st * size_of Positions < 0"
    using assms(1) by simp
  have pass1: "sample_pass P ?v0 =
         \<lparr>idx = 4 * ?n, val = prescale P,
          xMin = min_of (extent_of (sample_x P) ?n),
          xMax = max_of (extent_of (sample_x P) ?n),
          yMin = min_of (extent_of (sample_y P) ?n),
          yMax = max_of (extent_of (sample_y P) ?n),
          zMin = min_of (extent_of (sample_z P) ?n),
          zMax = max_of (extent_of (sample_z P) ?n),
          calls = map (\<lambda>k. Call_getPosition (grid_u P k) (grid_v P k)) [0..<?n]\<rparr>"
    by (subst sample_pass_eq) (simp_all only: len order_refl drop_all append_Nil2)
  have pass2: "fold (rescale_vertex xs ys zs) [0..<?n] (prescale P, cs0) =
         (concat (map (rescaled xs ys zs (prescale P)) [0..<?n]),
          cs0 @ concat (map (scale_calls (prescale P)) [0..<?n]))" for xs ys zs cs0
    by (subst rescale_fold) (simp_all add: length_prescale)
  show ?thesis
    unfolding calculatePositions_def new_array_def if_not_P [OF nonneg] sum.case pass1 Let_def
      sampler.simps extent_eta for_loop_fold n pass2
    by simp
qed

section \<open>Properties of the colours\<close>

lemma store_color_append:
  assumes "length pre = 4 * i" "4 \<le> length post"
  shows "store_color P positions i (pre @ post, cs) =
         (pre @ vertex_color P positions i @ drop 4 post, cs @ [color_call positions i])"
proof -
  have len: "length pre = i * 4" using assms(1) by simp
  show ?thesis
    unfolding store_color_def Let_def prod.case store4 [OF len assms(2)]
    by (simp add: vertex_color_def color_bytes_def color_call_def mult.commute)
qed

lemma length_vertex_color: "length (vertex_color P positions i) = 4"
  by (simp add: vertex_color_def color_bytes_def)

lemma colors_fold:
  assumes "4 * n \<le> length v0"
  shows "fold (store_color P positions) [0..<n] (v0, cs0) =
         (concat (map (vertex_color P positions) [0..<n]) @ drop (4 * n) v0,
          cs0 @ map (color_call positions) [0..<n])"
  using assms
proof (induction n)
  case 0
  then show ?case by simp
next
  case (Suc n)
  let ?pre = "concat (map (vertex_color P positions) [0..<n])"
  have len: "length ?pre = 4 * n"
    by (rule length_blocks) (simp add: length_vertex_color)
  have post: "4 \<le> length (drop (4 * n) v0)" using Suc.prems by simp
  have ih: "4 * n \<le> length v0" using Suc.prems by simp
  have "fold (store_color P positions) [0..<Suc n] (v0, cs0) =
        store_color P positions n (?pre @ drop (4 * n) v0, cs0 @ map (color_call positions) [0..<n])"
    using Suc.IH [OF ih] by simp
  also have "\<dots> = (?pre @ vertex_color P positions n @ drop 4 (drop (4 * n) v0),
        (cs0 @ map (color_call positions) [0..<n]) @ [color_call positions n])"
    by (rule store_color_append [OF len post])
  finally show ?case by (simp add: add.commute)
qed

lemma calculateColors_eq:
  assumes "attributes st Positions = Some (Float32Array positions)" "0 \<le> vertexCount st"
  shows "calculateColors P st =
         Inr (concat (map (vertex_color P positions) [0..<nat (vertexCount st)]),
              map (color_call positions) [0..<nat (vertexCount st)])"
proof -
  have n: "nat (vertexCount st * 4) = 4 * nat (vertexCount st)"
    using assms(2) by (simp add: nat_mult_distrib)
  show ?thesis
    using assms
    by (simp add: calculateColors_def new_array_def for_loop_fold colors_fold n)
qed

section \<open>The example grid, computed\<close>

text \<open>
  On the 3 by 2 grid, vertices 0 and 3 (the column \<open>u = 0\<close>) have an infinite \<open>z\<close>: they
  are stored as \<open>(x, 0, y, 1)\<close> and left by the second pass. The other vertices are
  rescaled, and \<open>getColor\<close> receives the numbers of the buffer.
\<close>

lemma plot3x2_positions:
  "map_sum id (\<lambda>r. (positions_value r, positions_calls r))
     (calculatePositions plot3x2 (fresh 6)) =
   Inr ([Num 0, Num 0, Num 0, Num 1,
         Num 1, Num 1, Num 0, Num 0,
         Num 2, Num (1 / 2), Num 0, Num 0,
         Num 0, Num 0, Num 1, Num 1,
         Num 1, Num 1, Num 1, Num 0,
         Num 2, Num (1 / 2), Num 1, Num 0],
        [Call_getPosition (Num 0) (Num 0), Call_getPosition (Num (1 / 2)) (Num 0),
         Call_getPosition (Num 1) (Num 0), Call_getPosition (Num 0) (Num 1),
         Call_getPosition (Num (1 / 2)) (Num 1), Call_getPosition (Num 1) (Num 1),
         Call_getXScale \<lparr>min_of = Num 0, max_of = Num 1\<rparr>,
         Call_getYScale \<lparr>min_of = Num 0, max_of = Num 1\<rparr>,
         Call_getZScale \<lparr>min_of = Num 0, max_of = Num 2\<rparr>,
         Call_xScale (Num (1 / 2)), Call_zScale (Num 2), Call_yScale (Num 0),
         Call_xScale (Num 1), Call_zScale (Num 1), Call_yScale (Num 0),
         Call_xScale (Num (1 / 2)), Call_zScale (Num 2), Call_yScale (Num 1),
         Call_xScale (Num 1), Call_zScale (Num 1), Call_yScale (Num 1),
         Call_onUpdate])"
  by code_simp

lemma plot3x2_colors:
  "positions_then_colors plot3x2 (fresh 6) =
   Inr ([0, 0, 0, 255, 100, 0, 100, 255, 200, 0, 50, 255,
         0, 100, 0, 255, 100, 100, 100, 255, 200, 100, 50, 255],
        [Call_getColor (Num 0) (Num 0) (Num 0), Call_getColor (Num 1) (Num 0) (Num 1),
         Call_getColor (Num 2) (Num 0) (Num (1 / 2)), Call_getColor (Num 0) (Num 1) (Num 0),
         Call_getColor (Num 1) (Num 1) (Num 1), Call_getColor (Num 2) (Num 1) (Num (1 / 2))])"
  by code_simp

lemma plot3x2_pickingColors:
  "calculatePickingColors plot3x2 (fresh 6) =
   Inr [0, 0, 1, 128, 0, 1, 255, 0, 1, 0, 255, 1, 128, 255, 1, 255, 255, 1]"
  by code_simp

section \<open>Sanitized samples and the rescaling\<close>

text \<open>
  The numbers 0 and 1 are binary32 values, so the flags are stored as they are; a vertex
  is rescaled exactly when all three of its samples are finite.
\<close>

lemma fround_0: "fround (Num 0) = Num 0"
  by simp

lemma fround_1: "fround (Num 1) = Num 1"
  by code_simp

lemma Num_sanitized: "isFinite x \<Longrightarrow> Num (sanitized x) = x"
  by (cases x) simp_all

lemma sanitized_nonfinite: "\<not> isFinite x \<Longrightarrow> sanitized x = 0"
  by (cases x) simp_all

lemma prescale_block:
  assumes "i < vertex_total P"
  shows "take 4 (drop (4 * i) (prescale P)) = stored P i"
  unfolding prescale_def by (rule block_at [OF _ assms]) (simp add: length_stored)

lemma prescale_nth:
  assumes "i < vertex_total P" "c < 4"
  shows "prescale P ! (4 * i + c) = stored P i ! c"
  unfolding prescale_def by (rule nth_blocks [OF _ assms]) (simp add: length_stored)

lemma prescale_components:
  assumes "i < vertex_total P"
  shows "prescale P ! (4 * i) = fround (Num (sanitized (sample_x P i)))"
    and "prescale P ! (4 * i + 1) = fround (Num (sanitized (sample_z P i)))"
    and "prescale P ! (4 * i + 2) = fround (Num (sanitized (sample_y P i)))"
    and "prescale P ! (4 * i + 3) = (if valid P i then Num 0 else Num 1)"
  using prescale_nth [OF assms, of 0] prescale_nth [OF assms, of 1]
    prescale_nth [OF assms, of 2] prescale_nth [OF assms, of 3]
  by (simp_all add: stored_def fround_0 fround_1 del: fround.simps)

lemma rescaled_prescale:
  assumes "i < vertex_total P"
  shows "rescaled xs ys zs (prescale P) i =
         (if valid P i
          then [fround (xs (fround (Num (sanitized (sample_x P i))))),
                fround (zs (fround (Num (sanitized (sample_z P i))))),
                fround (ys (fround (Num (sanitized (sample_y P i))))), Num 0]
          else stored P i)"
  unfolding rescaled_def prescale_components [OF assms]
  by (simp add: stored_def fround_1 del: fround.simps)

lemma scale_calls_prescale:
  assumes "i < vertex_total P"
  shows "scale_calls (prescale P) i =
         (if valid P i
          then [Call_xScale (fround (Num (sanitized (sample_x P i)))),
                Call_zScale (fround (Num (sanitized (sample_z P i)))),
                Call_yScale (fround (Num (sanitized (sample_y P i))))]
          else [])"
  unfolding scale_calls_def prescale_components [OF assms]
  by (simp del: fround.simps)

lemma filter_scale_calls: "filter is_scale (scale_calls v j) = scale_calls v j"
  by (simp add: scale_calls_def)

lemma filter_scale_concat:
  "filter is_scale (concat (map (scale_calls v) js)) = concat (map (scale_calls v) js)"
  by (induction js) (simp_all add: filter_scale_calls)

lemma filter_getScale_concat:
  "filter is_getScale (concat (map (scale_calls v) js)) = []"
  by (induction js) (simp_all add: scale_calls_def)

lemma positions_block:
  assumes "i < n"
  shows "take 4 (drop (4 * i) (concat (map (rescaled xs ys zs v) [0..<n]))) = rescaled xs ys zs v i"
  by (rule block_at [OF _ assms]) (simp add: length_rescaled)

lemma positions_nth:
  assumes "i < n" "c < 4"
  shows "concat (map (rescaled xs ys zs v) [0..<n]) ! (4 * i + c) = rescaled xs ys zs v i ! c"
  by (rule nth_blocks [OF _ assms]) (simp add: length_rescaled)

lemma val_sample_pass:
  assumes "vertexCount st = uCount P * vCount P" "0 \<le> uCount P" "0 \<le> vCount P"
  shows "val (sample_pass P (replicate (nat (vertexCount st * size_of Positions)) (Num 0))) = prescale P"
proof -
  have "length (replicate (nat (vertexCount st * size_of Positions)) (Num 0 :: jsnum)) = 4 * vertex_total P"
    using assms by (simp add: vertex_total_def nat_mult_distrib mult.commute)
  then show ?thesis by (subst sample_pass_eq) simp_all
qed

section \<open>The extents\<close>

text \<open>
  Every value folded into an extent is finite, so on a grid with at least one vertex the
  accumulated minimum and maximum are those of the sanitized samples.
\<close>

lemma Math_min_Num: "Math_min (Num a) (Num b) = Num (min a b)"
  by (simp add: Math_min_def min_def)

lemma Math_max_Num: "Math_max (Num a) (Num b) = Num (max a b)"
  by (simp add: Math_max_def max_def)

lemma foldl_Math_min:
  assumes "qs \<noteq> []"
  shows "foldl Math_min Infinity (map Num qs) = Num (Min (set qs))"
  using assms
proof (induction qs rule: rev_nonempty_induct)
  case (single q)
  then show ?case by (simp add: Math_min_def)
next
  case (snoc q qs)
  then show ?case by (simp add: Math_min_Num min.commute)
qed

lemma foldl_Math_max:
  assumes "qs \<noteq> []"
  shows "foldl Math_max NegInfinity (map Num qs) = Num (Max (set qs))"
  using assms
proof (induction qs rule: rev_nonempty_induct)
  case (single q)
  then show ?case by (simp add: Math_max_def)
next
  case (snoc q qs)
  then show ?case by (simp add: Math_max_Num max.commute)
qed

lemma extent_of_Min_Max:
  assumes "0 < n"
  shows "extent_of f n =
         \<lparr>min_of = Num (Min ((\<lambda>k. sanitized (f k)) ` {..<n})),
          max_of = Num (Max ((\<lambda>k. sanitized (f k)) ` {..<n}))\<rparr>"
proof -
  let ?qs = "map (\<lambda>k. sanitized (f k)) [0..<n]"
  have ne: "?qs \<noteq> []" using assms by simp
  have m: "map (\<lambda>k. Num (sanitized (f k))) [0..<n] = map Num ?qs" by simp
  have s: "set ?qs = (\<lambda>k. sanitized (f k)) ` {..<n}" by (simp add: atLeast0LessThan)
  show ?thesis
    unfolding extent_of_def m foldl_Math_min [OF ne] foldl_Math_max [OF ne] s ..
qed

lemma filter_getPosition_calls:
  "filter is_getScale (map (\<lambda>k. Call_getPosition (f k) (g k)) ks) = []"
  "filter is_scale (map (\<lambda>k. Call_getPosition (f k) (g k)) ks) = []"
  by (induction ks) simp_all

text \<open>
  Claim C8 (extent accumulation and scale instantiation). In one recomputation of the
  positions, the extent of each axis is the minimum and maximum over the sanitized samples
  of all vertices (a sample that is not finite counts as 0), and after the calls of
  \<open>getPosition\<close> for all vertices, each of \<open>getXScale\<close>, \<open>getYScale\<close>, \<open>getZScale\<close> is
  called exactly once, in this order, with the extent of its axis; the three functions
  they return are given to \<open>onUpdate\<close>.
\<close>

theorem extent_and_scales:
  assumes "1 \<le> uCount P" "1 \<le> vCount P" "vertexCount st = uCount P * vCount P"
  shows "case calculatePositions P st of
           Inr r \<Rightarrow>
             (let n = vertex_total P;
                  X = (\<lambda>k. sanitized (sample_x P k)) ` {..<n};
                  Y = (\<lambda>k. sanitized (sample_y P k)) ` {..<n};
                  Z = (\<lambda>k. sanitized (sample_z P k)) ` {..<n};
                  ex = \<lparr>min_of = Num (Min X), max_of = Num (Max X)\<rparr>;
                  ey = \<lparr>min_of = Num (Min Y), max_of = Num (Max Y)\<rparr>;
                  ez = \<lparr>min_of = Num (Min Z), max_of = Num (Max Z)\<rparr>
              in positions_calls r =
                   map (\<lambda>k. Call_getPosition (grid_u P k) (grid_v P k)) [0..<n] @
                   [Call_getXScale ex, Call_getYScale ey, Call_getZScale ez] @
                   filter is_scale (positions_calls r) @ [Call_onUpdate] \<and>
                 filter is_getScale (positions_calls r) =
                   [Call_getXScale ex, Call_getYScale ey, Call_getZScale ez] \<and>
                 onUpdate_arg r = (getXScale P ex, getYScale P ey, getZScale P ez))
         | Inl e \<Rightarrow> False"
proof -
  have n: "0 < vertex_total P" using assms(1,2) by (simp add: vertex_total_def)
  have nn: "0 \<le> uCount P" "0 \<le> vCount P" using assms(1,2) by simp_all
  show ?thesis
    unfolding calculatePositions_eq [OF assms(3) nn] Let_def extent_of_Min_Max [OF n]
    by (simp add: filter_getPosition_calls filter_scale_concat filter_getScale_concat)
qed

text \<open>The extents and the calls on the 3 by 2 grid.\<close>

theorem extent_and_scales_witness:
  "1 \<le> uCount plot3x2 \<and> 1 \<le> vCount plot3x2 \<and>
   vertexCount (fresh 6) = uCount plot3x2 * vCount plot3x2 \<and>
   (case calculatePositions plot3x2 (fresh 6) of
      Inr r \<Rightarrow>
        (let n = vertex_total plot3x2;
             X = (\<lambda>k. sanitized (sample_x plot3x2 k)) ` {..<n};
             Y = (\<lambda>k. sanitized (sample_y plot3x2 k)) ` {..<n};
             Z = (\<lambda>k. sanitized (sample_z plot3x2 k)) ` {..<n};
             ex = \<lparr>min_of = Num (Min X), max_of = Num (Max X)\<rparr>;
             ey = \<lparr>min_of = Num (Min Y), max_of = Num (Max Y)\<rparr>;
             ez = \<lparr>min_of = Num (Min Z), max_of = Num (Max Z)\<rparr>
         in positions_calls r =
              map (\<lambda>k. Call_getPosition (grid_u plot3x2 k) (grid_v plot3x2 k)) [0..<n] @
              [Call_getXScale ex, Call_getYScale ey, Call_getZScale ez] @
              filter is_scale (positions_calls r) @ [Call_onUpdate] \<and>
            filter is_getScale (positions_calls r) =
              [Call_getXScale ex, Call_getYScale ey, Call_getZScale ez] \<and>
            onUpdate_arg r = (getXScale plot3x2 ex, getYScale plot3x2 ey, getZScale plot3x2 ez))
    | Inl e \<Rightarrow> False)"
proof -
  have h:
    "1 \<le> uCount plot3x2"
    "1 \<le> vCount plot3x2"
    "vertexCount (fresh 6) = uCount plot3x2 * vCount plot3x2"
    by (simp_all add: plot3x2_def fresh_def)
  from extent_and_scales [OF h] h show ?thesis by blast
qed

section \<open>Invalid vertices, rescaling and the arguments of \<open>getColor\<close>\<close>

lemma computed_positions:
  assumes "1 \<le> uCount P" "1 \<le> vCount P" "vertexCount st = uCount P * vCount P"
  shows "case calculatePositions P st of
           Inr r \<Rightarrow>
             positions_value r =
               concat (map (rescaled (fst (onUpdate_arg r)) (fst (snd (onUpdate_arg r)))
                              (snd (snd (onUpdate_arg r))) (prescale P)) [0..<vertex_total P]) \<and>
             filter is_scale (positions_calls r) =
               concat (map (scale_calls (prescale P)) [0..<vertex_total P])
         | Inl e \<Rightarrow> False"
proof -
  have nn: "0 \<le> uCount P" "0 \<le> vCount P" using assms(1,2) by simp_all
  show ?thesis
    unfolding calculatePositions_eq [OF assms(3) nn] Let_def
    by (simp add: filter_getPosition_calls filter_scale_concat)
qed

lemma positions_components:
  assumes "i < vertex_total P"
    and "p = concat (map (rescaled xs ys zs (prescale P)) [0..<vertex_total P])"
  shows "take 4 (drop (4 * i) p) = rescaled xs ys zs (prescale P) i"
    and "length p = 4 * vertex_total P"
    and "p ! (4 * i) = rescaled xs ys zs (prescale P) i ! 0"
    and "p ! (4 * i + 1) = rescaled xs ys zs (prescale P) i ! 1"
    and "p ! (4 * i + 2) = rescaled xs ys zs (prescale P) i ! 2"
    and "p ! (4 * i + 3) = rescaled xs ys zs (prescale P) i ! 3"
proof -
  show "take 4 (drop (4 * i) p) = rescaled xs ys zs (prescale P) i"
    unfolding assms(2) by (rule positions_block [OF assms(1)])
  show "length p = 4 * vertex_total P"
    unfolding assms(2) by (rule length_blocks) (simp add: length_rescaled)
  show "p ! (4 * i) = rescaled xs ys zs (prescale P) i ! 0"
    using positions_nth [OF assms(1), of 0 xs ys zs "prescale P"] by (simp add: assms(2))
  show "p ! (4 * i + 1) = rescaled xs ys zs (prescale P) i ! 1"
    unfolding assms(2) by (rule positions_nth [OF assms(1)]) simp
  show "p ! (4 * i + 2) = rescaled xs ys zs (prescale P) i ! 2"
    unfolding assms(2) by (rule positions_nth [OF assms(1)]) simp
  show "p ! (4 * i + 3) = rescaled xs ys zs (prescale P) i ! 3"
    unfolding assms(2) by (rule positions_nth [OF assms(1)]) simp
qed

lemma colors_of_positions:
  assumes "0 \<le> vertexCount st" "i < nat (vertexCount st)" "length p = 4 * nat (vertexCount st)"
  obtains bytes cs where
    "calculateColors P (set_value Positions (Float32Array p) st) = Inr (bytes, cs)"
    and "length cs = nat (vertexCount st)"
    and "cs ! i = Call_getColor (p ! (4 * i)) (p ! (4 * i + 2)) (p ! (4 * i + 1))"
    and "take 4 (drop (4 * i) bytes) =
         color_bytes (getColor P (p ! (4 * i)) (p ! (4 * i + 2)) (p ! (4 * i + 1)))"
proof -
  let ?st = "set_value Positions (Float32Array p) st"
  let ?n = "nat (vertexCount st)"
  have a: "attributes ?st Positions = Some (Float32Array p)" and v: "vertexCount ?st = vertexCount st"
    by (simp_all add: set_value_def)
  have eq: "calculateColors P ?st =
      Inr (concat (map (vertex_color P p) [0..<?n]), map (color_call p) [0..<?n])"
    using calculateColors_eq [OF a, of P] assms(1) by (simp add: v)
  have idx: "js_index p (4 * i) = p ! (4 * i)" "js_index p (4 * i + 1) = p ! (4 * i + 1)"
    "js_index p (4 * i + 2) = p ! (4 * i + 2)"
    using assms(2,3) by (simp_all add: js_index_def)
  have blk: "take 4 (drop (4 * i) (concat (map (vertex_color P p) [0..<?n]))) = vertex_color P p i"
    by (rule block_at [OF _ assms(2)]) (simp add: length_vertex_color)
  show thesis
  proof (rule that [OF eq])
    show "length (map (color_call p) [0..<?n]) = ?n" by simp
    have "map (color_call p) [0..<?n] ! i = color_call p i"
      using assms(2) by simp
    then show "map (color_call p) [0..<?n] ! i =
        Call_getColor (p ! (4 * i)) (p ! (4 * i + 2)) (p ! (4 * i + 1))"
      unfolding color_call_def idx .
    show "take 4 (drop (4 * i) (concat (map (vertex_color P p) [0..<?n]))) =
         color_bytes (getColor P (p ! (4 * i)) (p ! (4 * i + 2)) (p ! (4 * i + 1)))"
      unfolding blk vertex_color_def idx ..
  qed
qed

lemma nat_vertexCount:
  assumes "vertexCount st = uCount P * vCount P" "0 \<le> uCount P" "0 \<le> vCount P"
  shows "nat (vertexCount st) = vertex_total P" "0 \<le> vertexCount st"
  using assms by (simp_all add: vertex_total_def nat_mult_distrib mult.commute)

text \<open>
  Claim C6 (non-finite sanitization). When \<open>getPosition\<close> returns a value that is not
  finite on some axis for vertex \<open>i\<close>, the first pass stores the flag 1 for \<open>i\<close> and 0 for
  each such axis. The second pass leaves the four numbers of vertex \<open>i\<close> as the first
  pass stored them; it rewrites exactly the vertices whose flag is 0, with the scale
  functions applied to the stored coordinates, and calls no scale function for \<open>i\<close>.
\<close>

theorem nonfinite_sanitized:
  assumes "1 \<le> uCount P" "1 \<le> vCount P" "vertexCount st = uCount P * vCount P"
    and "i < vertex_total P" "\<not> valid P i"
  shows "let pre = val (sample_pass P
                     (replicate (nat (vertexCount st * size_of Positions)) (Num 0)))
         in pre ! (4 * i + 3) = Num 1 \<and>
            (\<not> isFinite (sample_x P i) \<longrightarrow> pre ! (4 * i) = Num 0) \<and>
            (\<not> isFinite (sample_z P i) \<longrightarrow> pre ! (4 * i + 1) = Num 0) \<and>
            (\<not> isFinite (sample_y P i) \<longrightarrow> pre ! (4 * i + 2) = Num 0) \<and>
            (case calculatePositions P st of
               Inr r \<Rightarrow>
                 (case onUpdate_arg r of
                    (xScale, yScale, zScale) \<Rightarrow>
                      take 4 (drop (4 * i) (positions_value r)) = take 4 (drop (4 * i) pre) \<and>
                      (\<forall>j < vertex_total P.
                         take 4 (drop (4 * j) (positions_value r)) =
                           (if pre ! (4 * j + 3) = Num 0
                            then [fround (xScale (pre ! (4 * j))),
                                  fround (zScale (pre ! (4 * j + 1))),
                                  fround (yScale (pre ! (4 * j + 2))), Num 0]
                            else take 4 (drop (4 * j) pre))) \<and>
                      filter is_scale (positions_calls r) =
                        concat (map (scale_calls pre) [0..<vertex_total P]) \<and>
                      scale_calls pre i = [])
             | Inl e \<Rightarrow> False)"
proof -
  have nn: "0 \<le> uCount P" "0 \<le> vCount P" using assms(1,2) by simp_all
  note pre = val_sample_pass [OF assms(3) nn]
  note ci = prescale_components [OF assms(4)]
  have flag: "prescale P ! (4 * i + 3) = Num 1" using ci(4) assms(5) by simp
  have x: "prescale P ! (4 * i) = Num 0" if "\<not> isFinite (sample_x P i)"
    unfolding ci(1) sanitized_nonfinite [OF that] by (rule fround_0)
  have z: "prescale P ! (4 * i + 1) = Num 0" if "\<not> isFinite (sample_z P i)"
    unfolding ci(2) sanitized_nonfinite [OF that] by (rule fround_0)
  have y: "prescale P ! (4 * i + 2) = Num 0" if "\<not> isFinite (sample_y P i)"
    unfolding ci(3) sanitized_nonfinite [OF that] by (rule fround_0)
  from computed_positions [OF assms(1-3)] obtain r where r: "calculatePositions P st = Inr r"
    and pv: "positions_value r =
       concat (map (rescaled (fst (onUpdate_arg r)) (fst (snd (onUpdate_arg r)))
                      (snd (snd (onUpdate_arg r))) (prescale P)) [0..<vertex_total P])"
    and sc: "filter is_scale (positions_calls r) =
       concat (map (scale_calls (prescale P)) [0..<vertex_total P])"
    by (auto split: sum.splits)
  obtain xs ys zs where arg: "onUpdate_arg r = (xs, ys, zs)" by (cases "onUpdate_arg r") auto
  have pv': "positions_value r = concat (map (rescaled xs ys zs (prescale P)) [0..<vertex_total P])"
    using pv by (simp add: arg)
  have blk: "take 4 (drop (4 * j) (positions_value r)) =
         (if prescale P ! (4 * j + 3) = Num 0
          then [fround (xs (prescale P ! (4 * j))), fround (zs (prescale P ! (4 * j + 1))),
                fround (ys (prescale P ! (4 * j + 2))), Num 0]
          else take 4 (drop (4 * j) (prescale P)))" if j: "j < vertex_total P" for j
    unfolding positions_components(1) [OF j pv'] rescaled_prescale [OF j]
      prescale_components [OF j] prescale_block [OF j]
    by simp
  have this_vertex: "take 4 (drop (4 * i) (positions_value r)) = take 4 (drop (4 * i) (prescale P))"
    unfolding blk [OF assms(4)] flag by simp
  have no_calls: "scale_calls (prescale P) i = []"
    unfolding scale_calls_prescale [OF assms(4)] using assms(5) by simp
  show ?thesis
    unfolding Let_def pre r arg sum.case prod.case
    using flag x y z this_vertex blk sc no_calls by blast
qed

text \<open>Vertex 0 of the 3 by 2 grid, whose \<open>z\<close> is infinite.\<close>

theorem nonfinite_sanitized_witness:
  "1 \<le> uCount plot3x2 \<and>
   1 \<le> vCount plot3x2 \<and>
   vertexCount (fresh 6) = uCount plot3x2 * vCount plot3x2 \<and>
   0 < vertex_total plot3x2 \<and>
   \<not> valid plot3x2 0 \<and>
   \<not> isFinite (sample_z plot3x2 0) \<and>
   (let pre = val (sample_pass plot3x2
                (replicate (nat (vertexCount (fresh 6) * size_of Positions)) (Num 0)))
    in pre ! (4 * 0 + 3) = Num 1 \<and>
       (\<not> isFinite (sample_x plot3x2 0) \<longrightarrow> pre ! (4 * 0) = Num 0) \<and>
       (\<not> isFinite (sample_z plot3x2 0) \<longrightarrow> pre ! (4 * 0 + 1) = Num 0) \<and>
       (\<not> isFinite (sample_y plot3x2 0) \<longrightarrow> pre ! (4 * 0 + 2) = Num 0) \<and>
       (case calculatePositions plot3x2 (fresh 6) of
          Inr r \<Rightarrow>
            (case onUpdate_arg r of
               (xScale, yScale, zScale) \<Rightarrow>
                 take 4 (drop (4 * 0) (positions_value r)) = take 4 (drop (4 * 0) pre) \<and>
                 (\<forall>j < vertex_total plot3x2.
                    take 4 (drop (4 * j) (positions_value r)) =
                      (if pre ! (4 * j + 3) = Num 0
                       then [fround (xScale (pre ! (4 * j))),
                             fround (zScale (pre ! (4 * j + 1))),
                             fround (yScale (pre ! (4 * j + 2))), Num 0]
                       else take 4 (drop (4 * j) pre))) \<and>
                 filter is_scale (positions_calls r) =
                   concat (map (scale_calls pre) [0..<vertex_total plot3x2]) \<and>
                 scale_calls pre 0 = [])
        | Inl e \<Rightarrow> False))"
proof -
  have h:
    "1 \<le> uCount plot3x2"
    "1 \<le> vCount plot3x2"
    "vertexCount (fresh 6) = uCount plot3x2 * vCount plot3x2"
    "0 < vertex_total plot3x2"
    "\<not> valid plot3x2 0"
    by code_simp+
  have more:
    "\<not> isFinite (sample_z plot3x2 0)"
    by code_simp+
  from nonfinite_sanitized [OF h] h more show ?thesis by blast
qed

text \<open>
  Claim C7 as stated fails: \<open>getColor\<close> does not receive the sampled coordinates. On the
  2 by 2 grid whose every sample is \<open>(1, 2, 3)\<close> and whose scales double, every call is
  \<open>getColor (2, 4, 6)\<close>.
\<close>

theorem scaled_arguments_counterexample:
  "sampled plot2x2 0 = [Num 1, Num 2, Num 3] \<and>
   positions_then_colors plot2x2 (fresh 4) =
     Inr ([2, 4, 6, 255, 2, 4, 6, 255, 2, 4, 6, 255, 2, 4, 6, 255],
          [Call_getColor (Num 2) (Num 4) (Num 6), Call_getColor (Num 2) (Num 4) (Num 6),
           Call_getColor (Num 2) (Num 4) (Num 6), Call_getColor (Num 2) (Num 4) (Num 6)])"
  by code_simp

text \<open>
  Claim C7, amended. For every vertex \<open>i\<close>, the colour computation calls \<open>getColor\<close> once,
  with the first, the third and the second component of the vertex in the positions
  buffer as \<open>x\<close>, \<open>y\<close> and \<open>z\<close> (undoing the storage swap). These are the numbers the
  second pass left: for a vertex whose samples are all finite, the scaled coordinates
  \<open>xScale x\<close>, \<open>yScale y\<close>, \<open>zScale z\<close> of the stored samples, each as a binary32 value.
\<close>

theorem getColor_arguments:
  assumes "1 \<le> uCount P" "1 \<le> vCount P" "vertexCount st = uCount P * vCount P"
    and "i < vertex_total P"
  shows "case calculatePositions P st of
           Inr r \<Rightarrow>
             (case calculateColors P (set_value Positions (Float32Array (positions_value r)) st) of
                Inr (bytes, cs) \<Rightarrow>
                  (case onUpdate_arg r of
                     (xScale, yScale, zScale) \<Rightarrow>
                       (let p = positions_value r
                        in length cs = vertex_total P \<and>
                           cs ! i = Call_getColor (p ! (4 * i)) (p ! (4 * i + 2)) (p ! (4 * i + 1)) \<and>
                           (valid P i \<longrightarrow>
                              p ! (4 * i) = fround (xScale (fround (sample_x P i))) \<and>
                              p ! (4 * i + 2) = fround (yScale (fround (sample_y P i))) \<and>
                              p ! (4 * i + 1) = fround (zScale (fround (sample_z P i))))))
              | Inl e \<Rightarrow> False)
         | Inl e \<Rightarrow> False"
proof -
  have nn: "0 \<le> uCount P" "0 \<le> vCount P" using assms(1,2) by simp_all
  note n = nat_vertexCount [OF assms(3) nn]
  from computed_positions [OF assms(1-3)] obtain r where r: "calculatePositions P st = Inr r"
    and pv: "positions_value r =
       concat (map (rescaled (fst (onUpdate_arg r)) (fst (snd (onUpdate_arg r)))
                      (snd (snd (onUpdate_arg r))) (prescale P)) [0..<vertex_total P])"
    by (auto split: sum.splits)
  obtain xs ys zs where arg: "onUpdate_arg r = (xs, ys, zs)" by (cases "onUpdate_arg r") auto
  have pv': "positions_value r = concat (map (rescaled xs ys zs (prescale P)) [0..<vertex_total P])"
    using pv by (simp add: arg)
  note pc = positions_components [OF assms(4) pv']
  have i: "i < nat (vertexCount st)" and len: "length (positions_value r) = 4 * nat (vertexCount st)"
    using assms(4) pc(2) by (simp_all add: n(1))
  obtain bytes cs where
    c: "calculateColors P (set_value Positions (Float32Array (positions_value r)) st) = Inr (bytes, cs)"
    and l: "length cs = nat (vertexCount st)"
    and call: "cs ! i = Call_getColor (positions_value r ! (4 * i)) (positions_value r ! (4 * i + 2))
                 (positions_value r ! (4 * i + 1))"
    by (rule colors_of_positions [OF n(2) i len])
  have scaled: "positions_value r ! (4 * i) = fround (xs (fround (sample_x P i))) \<and>
      positions_value r ! (4 * i + 2) = fround (ys (fround (sample_y P i))) \<and>
      positions_value r ! (4 * i + 1) = fround (zs (fround (sample_z P i)))" if v: "valid P i"
  proof -
    from v have f: "Num (sanitized (sample_x P i)) = sample_x P i"
      "Num (sanitized (sample_y P i)) = sample_y P i" "Num (sanitized (sample_z P i)) = sample_z P i"
      by (simp_all add: valid_def Num_sanitized)
    show ?thesis
      unfolding pc(3-5) rescaled_prescale [OF assms(4)] f using v by simp
  qed
  show ?thesis
    unfolding r c arg sum.case prod.case Let_def
    using l call scaled by (simp add: n(1))
qed

text \<open>Vertex 1 of the 3 by 2 grid, whose samples are finite.\<close>

theorem getColor_arguments_witness:
  "1 \<le> uCount plot3x2 \<and>
   1 \<le> vCount plot3x2 \<and>
   vertexCount (fresh 6) = uCount plot3x2 * vCount plot3x2 \<and>
   1 < vertex_total plot3x2 \<and>
   valid plot3x2 1 \<and>
   (case calculatePositions plot3x2 (fresh 6) of
      Inr r \<Rightarrow>
        (case calculateColors plot3x2 (set_value Positions (Float32Array (positions_value r)) (fresh 6)) of
           Inr (bytes, cs) \<Rightarrow>
             (case onUpdate_arg r of
                (xScale, yScale, zScale) \<Rightarrow>
                  (let p = positions_value r
                   in length cs = vertex_total plot3x2 \<and>
                      cs ! 1 = Call_getColor (p ! (4 * 1)) (p ! (4 * 1 + 2)) (p ! (4 * 1 + 1)) \<and>
                      (valid plot3x2 1 \<longrightarrow>
                         p ! (4 * 1) = fround (xScale (fround (sample_x plot3x2 1))) \<and>
                         p ! (4 * 1 + 2) = fround (yScale (fround (sample_y plot3x2 1))) \<and>
                         p ! (4 * 1 + 1) = fround (zScale (fround (sample_z plot3x2 1))))))
         | Inl e \<Rightarrow> False)
    | Inl e \<Rightarrow> False)"
proof -
  have h:
    "1 \<le> uCount plot3x2"
    "1 \<le> vCount plot3x2"
    "vertexCount (fresh 6) = uCount plot3x2 * vCount plot3x2"
    "1 < vertex_total plot3x2"
    by code_simp+
  have more:
    "valid plot3x2 1"
    by code_simp+
  from getColor_arguments [OF h] h more show ?thesis by blast
qed

text \<open>
  Claim C10 (invalid vertices are coloured from sanitized, unscaled coordinates). For a
  vertex \<open>i\<close> with a sample that is not finite, \<open>getColor\<close> is called with the numbers the
  first pass stored for \<open>i\<close>, that is the sanitized samples as binary32 values, 0 on each
  axis whose sample is not finite, with no scale function applied; the four bytes stored
  as the colour of \<open>i\<close> are those of the colour returned for these arguments.
\<close>

theorem invalid_vertex_color:
  assumes "1 \<le> uCount P" "1 \<le> vCount P" "vertexCount st = uCount P * vCount P"
    and "i < vertex_total P" "\<not> valid P i"
  shows "case calculatePositions P st of
           Inr r \<Rightarrow>
             (case calculateColors P (set_value Positions (Float32Array (positions_value r)) st) of
                Inr (bytes, cs) \<Rightarrow>
                  (let pre = val (sample_pass P
                               (replicate (nat (vertexCount st * size_of Positions)) (Num 0)));
                       x = pre ! (4 * i);
                       y = pre ! (4 * i + 2);
                       z = pre ! (4 * i + 1)
                   in cs ! i = Call_getColor x y z \<and>
                      take 4 (drop (4 * i) bytes) = color_bytes (getColor P x y z) \<and>
                      x = fround (Num (sanitized (sample_x P i))) \<and>
                      y = fround (Num (sanitized (sample_y P i))) \<and>
                      z = fround (Num (sanitized (sample_z P i))) \<and>
                      (\<not> isFinite (sample_x P i) \<longrightarrow> x = Num 0) \<and>
                      (\<not> isFinite (sample_y P i) \<longrightarrow> y = Num 0) \<and>
                      (\<not> isFinite (sample_z P i) \<longrightarrow> z = Num 0))
              | Inl e \<Rightarrow> False)
         | Inl e \<Rightarrow> False"
proof -
  have nn: "0 \<le> uCount P" "0 \<le> vCount P" using assms(1,2) by simp_all
  note n = nat_vertexCount [OF assms(3) nn]
  note pre = val_sample_pass [OF assms(3) nn]
  note ci = prescale_components [OF assms(4)]
  from computed_positions [OF assms(1-3)] obtain r where r: "calculatePositions P st = Inr r"
    and pv: "positions_value r =
       concat (map (rescaled (fst (onUpdate_arg r)) (fst (snd (onUpdate_arg r)))
                      (snd (snd (onUpdate_arg r))) (prescale P)) [0..<vertex_total P])"
    by (auto split: sum.splits)
  note pc = positions_components [OF assms(4) pv]
  have same: "positions_value r ! (4 * i) = prescale P ! (4 * i)"
    "positions_value r ! (4 * i + 1) = prescale P ! (4 * i + 1)"
    "positions_value r ! (4 * i + 2) = prescale P ! (4 * i + 2)"
    unfolding pc(3-5) rescaled_prescale [OF assms(4)] ci using assms(5)
    by (simp_all add: stored_def del: fround.simps)
  have i: "i < nat (vertexCount st)" and len: "length (positions_value r) = 4 * nat (vertexCount st)"
    using assms(4) pc(2) by (simp_all add: n(1))
  obtain bytes cs where
    c: "calculateColors P (set_value Positions (Float32Array (positions_value r)) st) = Inr (bytes, cs)"
    and call0: "cs ! i = Call_getColor (positions_value r ! (4 * i)) (positions_value r ! (4 * i + 2))
                 (positions_value r ! (4 * i + 1))"
    and col0: "take 4 (drop (4 * i) bytes) =
         color_bytes (getColor P (positions_value r ! (4 * i)) (positions_value r ! (4 * i + 2))
                        (positions_value r ! (4 * i + 1)))"
    by (rule colors_of_positions [OF n(2) i len])
  note call = call0 [unfolded same] and col = col0 [unfolded same]
  have x: "prescale P ! (4 * i) = Num 0" if "\<not> isFinite (sample_x P i)"
    unfolding ci(1) sanitized_nonfinite [OF that] by (rule fround_0)
  have z: "prescale P ! (4 * i + 1) = Num 0" if "\<not> isFinite (sample_z P i)"
    unfolding ci(2) sanitized_nonfinite [OF that] by (rule fround_0)
  have y: "prescale P ! (4 * i + 2) = Num 0" if "\<not> isFinite (sample_y P i)"
    unfolding ci(3) sanitized_nonfinite [OF that] by (rule fround_0)
  show ?thesis
    unfolding r c sum.case prod.case Let_def pre
    using call col ci(1-3) x y z by blast
qed

text \<open>Vertex 0 of the 3 by 2 grid.\<close>

theorem invalid_vertex_color_witness:
  "1 \<le> uCount plot3x2 \<and>
   1 \<le> vCount plot3x2 \<and>
   vertexCount (fresh 6) = uCount plot3x2 * vCount plot3x2 \<and>
   0 < vertex_total plot3x2 \<and>
   \<not> valid plot3x2 0 \<and>
   \<not> isFinite (sample_z plot3x2 0) \<and>
   (case calculatePositions plot3x2 (fresh 6) of
      Inr r \<Rightarrow>
        (case calculateColors plot3x2 (set_value Positions (Float32Array (positions_value r)) (fresh 6)) of
           Inr (bytes, cs) \<Rightarrow>
             (let pre = val (sample_pass plot3x2
                          (replicate (nat (vertexCount (fresh 6) * size_of Positions)) (Num 0)));
                  x = pre ! (4 * 0);
                  y = pre ! (4 * 0 + 2);
                  z = pre ! (4 * 0 + 1)
              in cs ! 0 = Call_getColor x y z \<and>
                 take 4 (drop (4 * 0) bytes) = color_bytes (getColor plot3x2 x y z) \<and>
                 x = fround (Num (sanitized (sample_x plot3x2 0))) \<and>
                 y = fround (Num (sanitized (sample_y plot3x2 0))) \<and>
                 z = fround (Num (sanitized (sample_z plot3x2 0))) \<and>
                 (\<not> isFinite (sample_x plot3x2 0) \<longrightarrow> x = Num 0) \<and>
                 (\<not> isFinite (sample_y plot3x2 0) \<longrightarrow> y = Num 0) \<and>
                 (\<not> isFinite (sample_z plot3x2 0) \<longrightarrow> z = Num 0))
         | Inl e \<Rightarrow> False)
    | Inl e \<Rightarrow> False)"
proof -
  have h:
    "1 \<le> uCount plot3x2"
    "1 \<le> vCount plot3x2"
    "vertexCount (fresh 6) = uCount plot3x2 * vCount plot3x2"
    "0 < vertex_total plot3x2"
    "\<not> valid plot3x2 0"
    by code_simp+
  have more:
    "\<not> isFinite (sample_z plot3x2 0)"
    by code_simp+
  from invalid_vertex_color [OF h] h more show ?thesis by blast
qed

section \<open>Invalidation and recomputation\<close>

text \<open>
  The update functions read only \<open>vertexCount\<close> and, for the colours, the value of the
  positions attribute.
\<close>

lemma calculatePositions_state:
  fixes st st' :: state
  assumes "vertexCount st = vertexCount st'"
  shows "calculatePositions P st = calculatePositions P st'"
  unfolding calculatePositions_def assms ..

lemma calculatePickingColors_state:
  fixes st st' :: state
  assumes "vertexCount st = vertexCount st'"
  shows "calculatePickingColors P st = calculatePickingColors P st'"
  unfolding calculatePickingColors_def assms ..

lemma calculateColors_state:
  fixes st st' :: state
  assumes "vertexCount st = vertexCount st'" "attributes st Positions = attributes st' Positions"
  shows "calculateColors P st = calculateColors P st'"
  unfolding calculateColors_def assms ..

lemma filter_color_calls: "filter is_getColor (map (color_call p) ks) = map (color_call p) ks"
  by (induction ks) (simp_all add: color_call_def)

lemma update_after_dimension_change:
  fixes st :: state
  assumes "1 \<le> uCount P" "1 \<le> vCount P" "vertexCount st = uCount P * vCount P"
    and "calculateIndices P = Inr (iv, n)"
    and "calculatePositions P st = Inr r"
    and "positions_then_colors P st = Inr (cv, cs)"
    and "calculatePickingColors P st = Inr pk"
  shows "update_attributes P [Indices, Positions, Colors, PickingColors] (invalidateAll st) =
         Inr (st\<lparr>needsUpdate := (\<lambda>a. False),
                 attributes := (attributes st)
                   (Indices := Some (Uint32Array iv),
                    Positions := Some (Float32Array (positions_value r)),
                    Colors := Some (Uint8ClampedArray cv),
                    PickingColors := Some (Uint8ClampedArray pk)),
                 model_vertexCount := n,
                 trace := trace st @ positions_calls r @ cs\<rparr>)"
proof -
  let ?s1 = "(set_value Indices (Uint32Array iv) (invalidateAll st))
               \<lparr>model_vertexCount := n,
                needsUpdate := (needsUpdate (invalidateAll st))(Indices := False)\<rparr>"
  have u1: "update_attribute P Indices (invalidateAll st) = Inr ?s1"
    by (simp only: update_attribute_def attribute.case assms(4) sum.case prod.case)
  have p: "calculatePositions P ?s1 = Inr r"
    unfolding assms(5) [symmetric]
    by (rule calculatePositions_state) (simp add: set_value_def invalidateAll_def)
  let ?s2 = "(set_value Positions (Float32Array (positions_value r)) ?s1)
               \<lparr>trace := trace ?s1 @ positions_calls r,
                needsUpdate := (needsUpdate ?s1)(Positions := False)\<rparr>"
  have u2: "update_attribute P Positions ?s1 = Inr ?s2"
    by (simp only: update_attribute_def attribute.case p sum.case prod.case)
  have "calculateColors P ?s2 =
        calculateColors P (set_value Positions (Float32Array (positions_value r)) st)"
    by (rule calculateColors_state) (simp_all add: set_value_def invalidateAll_def)
  then have c: "calculateColors P ?s2 = Inr (cv, cs)"
    using assms(5,6) by (simp add: positions_then_colors_def)
  let ?s3 = "(set_value Colors (Uint8ClampedArray cv) ?s2)
               \<lparr>trace := trace ?s2 @ cs,
                needsUpdate := (needsUpdate ?s2)(Colors := False)\<rparr>"
  have u3: "update_attribute P Colors ?s2 = Inr ?s3"
    by (simp only: update_attribute_def attribute.case c sum.case prod.case)
  have k: "calculatePickingColors P ?s3 = Inr pk"
    unfolding assms(7) [symmetric]
    by (rule calculatePickingColors_state) (simp add: set_value_def invalidateAll_def)
  let ?s4 = "(set_value PickingColors (Uint8ClampedArray pk) ?s3)
               \<lparr>needsUpdate := (needsUpdate ?s3)(PickingColors := False)\<rparr>"
  have u4: "update_attribute P PickingColors ?s3 = Inr ?s4"
    by (simp only: update_attribute_def attribute.case k sum.case prod.case)
  have d: "needsUpdate (invalidateAll st) Indices" "needsUpdate ?s1 Positions"
    "needsUpdate ?s2 Colors" "needsUpdate ?s3 PickingColors"
    by (simp_all add: invalidateAll_def set_value_def)
  have "update_attributes P [Indices, Positions, Colors, PickingColors] (invalidateAll st) = Inr ?s4"
    by (simp only: update_attributes.simps d if_True u1 u2 u3 u4 sum.case)
  also have "?s4 = st\<lparr>needsUpdate := (\<lambda>a. False),
                 attributes := (attributes st)
                   (Indices := Some (Uint32Array iv),
                    Positions := Some (Float32Array (positions_value r)),
                    Colors := Some (Uint8ClampedArray cv),
                    PickingColors := Some (Uint8ClampedArray pk)),
                 model_vertexCount := n,
                 trace := trace st @ positions_calls r @ cs\<rparr>"
  proof -
    have "(\<lambda>a. True)(Indices := False, Positions := False, Colors := False, PickingColors := False)
          = (\<lambda>a. False)"
      by (rule ext) (case_tac a; simp)
    then show ?thesis by (simp add: set_value_def invalidateAll_def)
  qed
  finally show ?thesis .
qed

lemma fold_invalidate:
  "vertexCount (fold invalidate cs st) = vertexCount st"
  "attributes (fold invalidate cs st) = attributes st"
  "model_vertexCount (fold invalidate cs st) = model_vertexCount st"
  "trace (fold invalidate cs st) = trace st"
  by (induction cs arbitrary: st) (simp_all add: invalidate_def)

lemma positions_then_colors_state:
  fixes st st' :: state
  assumes "vertexCount st = vertexCount st'"
  shows "positions_then_colors P st = positions_then_colors P st'"
proof -
  have "calculateColors P (set_value Positions b st) = calculateColors P (set_value Positions b st')"
    for b by (rule calculateColors_state) (simp_all add: set_value_def assms)
  then show ?thesis
    unfolding positions_then_colors_def calculatePositions_state [OF assms]
    by (simp split: sum.splits)
qed

lemma dimension_change:
  fixes st :: state
  assumes "uCount oldProps \<noteq> uCount props \<or> vCount oldProps \<noteq> vCount props"
    and "1 \<le> uCount props" "1 \<le> vCount props"
  shows "(let st1 = updateState oldProps props \<lparr>propsChanged = True\<rparr> (fold invalidate changed st);
                fresh = st\<lparr>vertexCount := uCount props * vCount props\<rparr>
            in map (needsUpdate st1) [Indices, Positions, Colors, PickingColors] =
                 [True, True, True, True] \<and>
               vertexCount st1 = uCount props * vCount props \<and>
               (case change_cycle oldProps props changed st of
                  Inr st' \<Rightarrow>
                    (case calculateIndices props of
                       Inr (iv, n) \<Rightarrow> attributes st' Indices = Some (Uint32Array iv)
                     | Inl e \<Rightarrow> False) \<and>
                    (case calculatePositions props fresh of
                       Inr r \<Rightarrow> attributes st' Positions = Some (Float32Array (positions_value r))
                     | Inl e \<Rightarrow> False) \<and>
                    (case positions_then_colors props fresh of
                       Inr (cv, cs) \<Rightarrow> attributes st' Colors = Some (Uint8ClampedArray cv)
                     | Inl e \<Rightarrow> False) \<and>
                    (case calculatePickingColors props fresh of
                       Inr pk \<Rightarrow> attributes st' PickingColors = Some (Uint8ClampedArray pk)
                     | Inl e \<Rightarrow> False) \<and>
                    map (needsUpdate st') [Indices, Positions, Colors, PickingColors] =
                      [False, False, False, False]
                | Inl e \<Rightarrow> False))"
proof -
  let ?n = "uCount props * vCount props"
  let ?s = "(fold invalidate changed st)\<lparr>vertexCount := ?n\<rparr>"
  let ?fresh = "st\<lparr>vertexCount := ?n\<rparr>"
  have nn: "0 \<le> uCount props" "0 \<le> vCount props" using assms(2,3) by simp_all
  have v: "vertexCount ?s = ?n" "vertexCount ?s = vertexCount ?fresh" by simp_all
  have n0: "0 \<le> vertexCount ?s" using nn by simp
  have st1: "updateState oldProps props \<lparr>propsChanged = True\<rparr> (fold invalidate changed st) =
      invalidateAll ?s"
    using assms(1) by (auto simp: updateState_def)
  obtain iv n where i: "calculateIndices props = Inr (iv, n)"
    using calculateIndices_eq [OF assms(2,3)] by simp
  obtain r where r: "calculatePositions props ?s = Inr r"
    using calculatePositions_eq [OF v(1) nn] by (simp add: Let_def)
  obtain cv cs where c: "positions_then_colors props ?s = Inr (cv, cs)"
    unfolding positions_then_colors_def r sum.case
    using calculateColors_eq [of "set_value Positions (Float32Array (positions_value r)) ?s"
        "positions_value r" props] n0
    by (simp add: set_value_def)
  obtain pk where k: "calculatePickingColors props ?s = Inr pk"
    using calculatePickingColors_eq [OF n0, of props] by simp
  note final = update_after_dimension_change [OF assms(2,3) v(1) i r c k]
  have fr: "calculatePositions props ?fresh = Inr r" "positions_then_colors props ?fresh = Inr (cv, cs)"
    "calculatePickingColors props ?fresh = Inr pk"
    using r c k
    unfolding calculatePositions_state [OF v(2)] positions_then_colors_state [OF v(2)]
      calculatePickingColors_state [OF v(2)] by simp_all
  show ?thesis
    unfolding Let_def change_cycle_def st1 final fr i sum.case prod.case
    by (simp add: invalidateAll_def)
qed

lemma accessor_change:
  fixes stB :: state
  assumes "uCount oldB = uCount propsB" "vCount oldB = vCount propsB"
    and "map (needsUpdate stB) [Indices, Positions, Colors, PickingColors] =
         [False, False, False, False]"
    and "attributes stB Positions = Some (Float32Array p)" "0 \<le> vertexCount stB"
  shows "(let st1 = updateState oldB propsB \<lparr>propsChanged = True\<rparr>
                        (fold invalidate [''getColor''] stB)
            in map (needsUpdate st1) [Indices, Positions, Colors, PickingColors] =
                 [False, False, True, False] \<and>
               (case change_cycle oldB propsB [''getColor''] stB of
                  Inr st' \<Rightarrow>
                    attributes st' Indices = attributes stB Indices \<and>
                    attributes st' Positions = attributes stB Positions \<and>
                    attributes st' PickingColors = attributes stB PickingColors \<and>
                    model_vertexCount st' = model_vertexCount stB \<and>
                    (case calculateColors propsB stB of
                       Inr (cv, cs) \<Rightarrow>
                         attributes st' Colors = Some (Uint8ClampedArray cv) \<and>
                         trace st' = trace stB @ cs \<and> filter is_getColor cs = cs
                     | Inl e \<Rightarrow> False)
                | Inl e \<Rightarrow> False))"
proof -
  let ?s = "invalidate ''getColor'' stB"
  have st1: "updateState oldB propsB \<lparr>propsChanged = True\<rparr> (fold invalidate [''getColor''] stB) = ?s"
    using assms(1,2) by (simp add: updateState_def)
  have d: "\<not> needsUpdate ?s Indices" "\<not> needsUpdate ?s Positions" "needsUpdate ?s Colors"
    "\<not> needsUpdate ?s PickingColors"
    using assms(3) by (simp_all add: invalidate_def)
  have eq: "calculateColors propsB stB =
      Inr (concat (map (vertex_color propsB p) [0..<nat (vertexCount stB)]),
           map (color_call p) [0..<nat (vertexCount stB)])"
    by (rule calculateColors_eq [OF assms(4,5)])
  then obtain cv cs where c: "calculateColors propsB stB = Inr (cv, cs)"
    and only: "filter is_getColor cs = cs"
    by (simp add: filter_color_calls)
  have "calculateColors propsB ?s = calculateColors propsB stB"
    by (rule calculateColors_state) (simp_all add: invalidate_def)
  then have c': "calculateColors propsB ?s = Inr (cv, cs)" using c by simp
  let ?s' = "(set_value Colors (Uint8ClampedArray cv) ?s)
               \<lparr>trace := trace ?s @ cs, needsUpdate := (needsUpdate ?s)(Colors := False)\<rparr>"
  have u: "update_attribute propsB Colors ?s = Inr ?s'"
    by (simp only: update_attribute_def attribute.case c' sum.case prod.case)
  have d': "\<not> needsUpdate ?s' PickingColors"
    using d(4) by (simp add: set_value_def)
  have run: "update_attributes propsB [Indices, Positions, Colors, PickingColors] ?s = Inr ?s'"
    by (simp only: update_attributes.simps d d' if_True if_False u sum.case)
  show ?thesis
    unfolding Let_def change_cycle_def st1 run c sum.case prod.case
    using d only by (simp add: set_value_def invalidate_def)
qed

text \<open>
  Claim C9 (invalidation scoping). When \<open>uCount\<close> or \<open>vCount\<close> differs from its previous
  value, \<open>updateState\<close> sets \<open>vertexCount\<close> and marks all four attributes dirty, and the
  cycle recomputes all four from the new properties. When the dimensions are unchanged
  and \<open>getColor\<close> is the changed accessor, in a state where every attribute was up to
  date, only the colours are marked dirty: the indices, the positions and the picking
  colours keep their values, the colours are recomputed, and the only calls made are
  those of \<open>getColor\<close>.
\<close>

theorem invalidation_scoping:
  fixes st stB :: state
  assumes "uCount oldProps \<noteq> uCount props \<or> vCount oldProps \<noteq> vCount props"
    and "1 \<le> uCount props" "1 \<le> vCount props"
    and "uCount oldB = uCount propsB" "vCount oldB = vCount propsB"
    and "map (needsUpdate stB) [Indices, Positions, Colors, PickingColors] =
         [False, False, False, False]"
    and "attributes stB Positions = Some (Float32Array p)" "0 \<le> vertexCount stB"
  shows "(let st1 = updateState oldProps props \<lparr>propsChanged = True\<rparr> (fold invalidate changed st);
                fresh = st\<lparr>vertexCount := uCount props * vCount props\<rparr>
            in map (needsUpdate st1) [Indices, Positions, Colors, PickingColors] =
                 [True, True, True, True] \<and>
               vertexCount st1 = uCount props * vCount props \<and>
               (case change_cycle oldProps props changed st of
                  Inr st' \<Rightarrow>
                    (case calculateIndices props of
                       Inr (iv, n) \<Rightarrow> attributes st' Indices = Some (Uint32Array iv)
                     | Inl e \<Rightarrow> False) \<and>
                    (case calculatePositions props fresh of
                       Inr r \<Rightarrow> attributes st' Positions = Some (Float32Array (positions_value r))
                     | Inl e \<Rightarrow> False) \<and>
                    (case positions_then_colors props fresh of
                       Inr (cv, cs) \<Rightarrow> attributes st' Colors = Some (Uint8ClampedArray cv)
                     | Inl e \<Rightarrow> False) \<and>
                    (case calculatePickingColors props fresh of
                       Inr pk \<Rightarrow> attributes st' PickingColors = Some (Uint8ClampedArray pk)
                     | Inl e \<Rightarrow> False) \<and>
                    map (needsUpdate st') [Indices, Positions, Colors, PickingColors] =
                      [False, False, False, False]
                | Inl e \<Rightarrow> False)) \<and>
         (let st1 = updateState oldB propsB \<lparr>propsChanged = True\<rparr>
                        (fold invalidate [''getColor''] stB)
            in map (needsUpdate st1) [Indices, Positions, Colors, PickingColors] =
                 [False, False, True, False] \<and>
               (case change_cycle oldB propsB [''getColor''] stB of
                  Inr st' \<Rightarrow>
                    attributes st' Indices = attributes stB Indices \<and>
                    attributes st' Positions = attributes stB Positions \<and>
                    attributes st' PickingColors = attributes stB PickingColors \<and>
                    model_vertexCount st' = model_vertexCount stB \<and>
                    (case calculateColors propsB stB of
                       Inr (cv, cs) \<Rightarrow>
                         attributes st' Colors = Some (Uint8ClampedArray cv) \<and>
                         trace st' = trace stB @ cs \<and> filter is_getColor cs = cs
                     | Inl e \<Rightarrow> False)
                | Inl e \<Rightarrow> False))"
  using dimension_change [OF assms(1-3)] accessor_change [OF assms(4-8)] by (rule conjI)

text \<open>
  A change from the 2 by 2 grid to the 3 by 2 grid, and a change of \<open>getColor\<close> alone on
  the 3 by 2 grid.
\<close>

theorem invalidation_scoping_witness:
  "uCount plot2x2 \<noteq> uCount plot3x2 \<and>
   1 \<le> uCount plot3x2 \<and>
   1 \<le> vCount plot3x2 \<and>
   uCount plot3x2 = uCount (plot3x2\<lparr>getColor := \<lambda>x y z. [Num 255]\<rparr>) \<and>
   vCount plot3x2 = vCount (plot3x2\<lparr>getColor := \<lambda>x y z. [Num 255]\<rparr>) \<and>
   map (needsUpdate (settled 6 (replicate 24 (Num 0)))) [Indices, Positions, Colors, PickingColors] = [False, False, False, False] \<and>
   attributes (settled 6 (replicate 24 (Num 0))) Positions = Some (Float32Array (replicate 24 (Num 0))) \<and>
   0 \<le> vertexCount (settled 6 (replicate 24 (Num 0))) \<and>
   (let st1 = updateState plot2x2 plot3x2 \<lparr>propsChanged = True\<rparr> (fold invalidate [] (settled 4 (replicate 16 (Num 0))));
                fresh = (settled 4 (replicate 16 (Num 0)))\<lparr>vertexCount := uCount plot3x2 * vCount plot3x2\<rparr>
            in map (needsUpdate st1) [Indices, Positions, Colors, PickingColors] =
                 [True, True, True, True] \<and>
               vertexCount st1 = uCount plot3x2 * vCount plot3x2 \<and>
               (case change_cycle plot2x2 plot3x2 [] (settled 4 (replicate 16 (Num 0))) of
                  Inr st' \<Rightarrow>
                    (case calculateIndices plot3x2 of
                       Inr (iv, n) \<Rightarrow> attributes st' Indices = Some (Uint32Array iv)
                     | Inl e \<Rightarrow> False) \<and>
                    (case calculatePositions plot3x2 fresh of
                       Inr r \<Rightarrow> attributes st' Positions = Some (Float32Array (positions_value r))
                     | Inl e \<Rightarrow> False) \<and>
                    (case positions_then_colors plot3x2 fresh of
                       Inr (cv, cs) \<Rightarrow> attributes st' Colors = Some (Uint8ClampedArray cv)
                     | Inl e \<Rightarrow> False) \<and>
                    (case calculatePickingColors plot3x2 fresh of
                       Inr pk \<Rightarrow> attributes st' PickingColors = Some (Uint8ClampedArray pk)
                     | Inl e \<Rightarrow> False) \<and>
                    map (needsUpdate st') [Indices, Positions, Colors, PickingColors] =
                      [False, False, False, False]
                | Inl e \<Rightarrow> False)) \<and>
   (let st1 = updateState plot3x2 (plot3x2\<lparr>getColor := \<lambda>x y z. [Num 255]\<rparr>) \<lparr>propsChanged = True\<rparr>
                        (fold invalidate [''getColor''] (settled 6 (replicate 24 (Num 0))))
            in map (needsUpdate st1) [Indices, Positions, Colors, PickingColors] =
                 [False, False, True, False] \<and>
               (case change_cycle plot3x2 (plot3x2\<lparr>getColor := \<lambda>x y z. [Num 255]\<rparr>) [''getColor''] (settled 6 (replicate 24 (Num 0))) of
                  Inr st' \<Rightarrow>
                    attributes st' Indices = attributes (settled 6 (replicate 24 (Num 0))) Indices \<and>
                    attributes st' Positions = attributes (settled 6 (replicate 24 (Num 0))) Positions \<and>
                    attributes st' PickingColors = attributes (settled 6 (replicate 24 (Num 0))) PickingColors \<and>
                    model_vertexCount st' = model_vertexCount (settled 6 (replicate 24 (Num 0))) \<and>
                    (case calculateColors (plot3x2\<lparr>getColor := \<lambda>x y z. [Num 255]\<rparr>) (settled 6 (replicate 24 (Num 0))) of
                       Inr (cv, cs) \<Rightarrow>
                         attributes st' Colors = Some (Uint8ClampedArray cv) \<and>
                         trace st' = trace (settled 6 (replicate 24 (Num 0))) @ cs \<and> filter is_getColor cs = cs
                     | Inl e \<Rightarrow> False)
                | Inl e \<Rightarrow> False))"
proof -
  have d: "uCount plot2x2 \<noteq> uCount plot3x2"
    by (simp add: plot2x2_def plot3x2_def)
  have h: "uCount plot2x2 \<noteq> uCount plot3x2 \<or> vCount plot2x2 \<noteq> vCount plot3x2"
    "1 \<le> uCount plot3x2"
    "1 \<le> vCount plot3x2"
    "uCount plot3x2 = uCount (plot3x2\<lparr>getColor := \<lambda>x y z. [Num 255]\<rparr>)"
    "vCount plot3x2 = vCount (plot3x2\<lparr>getColor := \<lambda>x y z. [Num 255]\<rparr>)"
    "map (needsUpdate (settled 6 (replicate 24 (Num 0)))) [Indices, Positions, Colors, PickingColors] = [False, False, False, False]"
    "attributes (settled 6 (replicate 24 (Num 0))) Positions = Some (Float32Array (replicate 24 (Num 0)))"
    "0 \<le> vertexCount (settled 6 (replicate 24 (Num 0)))"
    by (simp_all add: plot2x2_def plot3x2_def settled_def)
  from invalidation_scoping [OF h] h d show ?thesis by blast
qed

end
